theory Spec2Isabelle
  imports Complex_Main "HOL-Library.AList" "HOL-Library.Word" "HOL-Library.Log_Nat"
begin

section \<open>The translation cache of src/src/translation-cache.ts\<close>

text \<open>
  The class \<open>TranslationCache\<close> is embedded as a record of its fields and one HOL
  function per method; a method takes the object and returns the updated object.

  \<^item> A JavaScript string is the list of its UTF-16 code units, so that \<open>length\<close> is
    the source's \<open>.length\<close>.
  \<^item> A \<open>Map\<close> iterates in insertion order, and the eviction sorts the entries in that
    order, so the map is an association list: \<open>Map.set\<close> is \<open>AList.update\<close> (an
    existing key keeps its place, a new key goes to the end), \<open>Map.delete\<close> is
    \<open>AList.delete\<close>, \<open>Map.get\<close> is \<open>map_of\<close>.
  \<^item> Timestamps, sizes and counters are integers (they are integral \<open>number\<close>s in the
    source, far below \<open>2^53\<close>); the quotients and the product of \<open>getMetrics\<close> are
    rounded as the doubles they are.
  \<^item> Every call of \<open>Date.now()\<close> is a parameter of the method that makes it, one per
    call site, so that the theorems hold for every reading of the clock.
  \<^item> \<open>context.globalState\<close> holds one value under \<open>CACHE_KEY\<close>: the field
    \<open>globalState\<close>. \<open>globalState.update\<close> stores the object it is given.
  \<^item> Logging is left out.
\<close>

subsection \<open>Data\<close>

type_synonym js_string = "16 word list"

text \<open>An ASCII literal as a JavaScript string.\<close>

definition js :: "string \<Rightarrow> js_string" where
  "js s = map of_char s"

text \<open>The interface \<open>CacheItem\<close>; the fields \<open>from\<close> and \<open>to\<close> are \<open>from_lang\<close> and
  \<open>to_lang\<close> here.\<close>

record CacheItem =
  result :: js_string
  timestamp :: int
  from_lang :: js_string
  to_lang :: js_string

type_synonym entries = "(js_string \<times> CacheItem) list"

record Metrics =
  hits :: int
  misses :: int
  totalResponseTime :: int
  responses :: int

record TranslationCache =
  cache :: entries
  expirationTime :: int
  globalState :: "entries option"
  maxCacheSize :: int
  currentCacheSize :: int
  metrics :: Metrics
  lastSaveTime :: int

text \<open>The object \<open>getMetrics\<close> returns; its field \<open>size\<close> is \<open>size_m\<close> here.\<close>

record MetricsSnapshot =
  hitRate :: real
  avgResponseTime :: real
  size_m :: int

subsection \<open>Double arithmetic\<close>

text \<open>
  The quotients and the product of \<open>getMetrics\<close> are operations on doubles. A finite double
  is modelled by the real number it denotes, and an operation returns its exact result
  rounded to the nearest double, that is to 53 significant bits, a tie going to the even
  significand. Overflow and subnormal numbers are left out: the counters are integers
  below \<open>2^53\<close>, which a double holds exactly, so the quotients lie between \<open>2^-53\<close>
  and \<open>2^53\<close>.
\<close>

text \<open>The nearest integer, a tie going to the even one.\<close>

definition roundHalfEven :: "real \<Rightarrow> int" where
  "roundHalfEven y =
     (let f = \<lfloor>y\<rfloor>; d = y - of_int f
      in if d < 1 / 2 then f else if d > 1 / 2 then f + 1
         else if even f then f else f + 1)"

text \<open>The binary exponent of a positive number: the \<open>e\<close> with \<open>2^e \<le> x < 2^(e+1)\<close>.\<close>

definition exponent2 :: "real \<Rightarrow> int" where
  "exponent2 x = (if x \<ge> 1 then bitlen \<lfloor>x\<rfloor> - 1 else - bitlen (\<lceil>1 / x\<rceil> - 1))"

text \<open>\<open>x\<close> times \<open>2^e\<close>.\<close>

definition scale2 :: "real \<Rightarrow> int \<Rightarrow> real" where
  "scale2 x e = (if e \<ge> 0 then x * 2 ^ nat e else x / 2 ^ nat (- e))"

definition roundToDouble :: "real \<Rightarrow> real" where
  "roundToDouble x =
     (if x = 0 then 0
      else let e = exponent2 \<bar>x\<bar> - 52;
               m = roundHalfEven (scale2 \<bar>x\<bar> (- e))
           in sgn x * scale2 (of_int m) e)"

text \<open>The operators \<open>/\<close> and \<open>*\<close> of the source, on doubles.\<close>

definition double_div :: "real \<Rightarrow> real \<Rightarrow> real" where
  "double_div a b = roundToDouble (a / b)"

definition double_mul :: "real \<Rightarrow> real \<Rightarrow> real" where
  "double_mul a b = roundToDouble (a * b)"

subsection \<open>Methods\<close>

definition calculateItemSize :: "js_string \<Rightarrow> CacheItem \<Rightarrow> int" where
  "calculateItemSize key item =
     (let keySize = int (length key) * 2;
          resultSize = int (length (result item)) * 2;
          fromSize = int (length (from_lang item)) * 2;
          toSize = int (length (to_lang item)) * 2;
          timestampSize = 8
      in keySize + resultSize + fromSize + toSize + timestampSize)"

text \<open>\<open>loadCache\<close>: \<open>getThrows\<close> says whether reading the global state throws; the
  \<open>catch\<close> branch then replaces the map by an empty one. Otherwise the stored object, when
  there is one, is copied into the map key by key (in the order of \<open>Object.keys\<close>).\<close>

definition loadCache :: "bool \<Rightarrow> TranslationCache \<Rightarrow> TranslationCache" where
  "loadCache getThrows s =
     (if getThrows then s\<lparr>cache := []\<rparr>
      else case globalState s of
        None \<Rightarrow> s
      | Some cachedData \<Rightarrow>
          fold (\<lambda>(key, item) s'.
                  s'\<lparr>cache := AList.update key item (cache s'),
                     currentCacheSize := currentCacheSize s' + calculateItemSize key item\<rparr>)
               cachedData (s\<lparr>currentCacheSize := 0\<rparr>))"

definition saveCache :: "int \<Rightarrow> TranslationCache \<Rightarrow> TranslationCache" where
  "saveCache now s =
     (if now - lastSaveTime s < 1000 then s
      else s\<lparr>lastSaveTime := now, globalState := Some (cache s)\<rparr>)"

text \<open>\<open>cleanExpiredCache\<close>: \<open>forEach\<close> visits the entries the map had at the start,
  since the callback deletes only the entry it is visiting. \<open>now\<close> is the reading of the
  method itself, \<open>tSave\<close> the reading of the \<open>saveCache\<close> it calls.\<close>

definition cleanExpiredCache :: "int \<Rightarrow> int \<Rightarrow> TranslationCache \<Rightarrow> TranslationCache" where
  "cleanExpiredCache now tSave s =
     (let (c, expiredCount) =
            fold (\<lambda>(key, item) (c, n).
                    if now - timestamp item > expirationTime s
                    then (AList.delete key c, n + 1) else (c, n))
                 (cache s) (cache s, 0 :: nat);
          s' = s\<lparr>cache := c\<rparr>
      in if expiredCount > 0 then saveCache tSave s' else s')"

definition separator :: "16 word" where
  "separator = 0x7C"

definition generateKey :: "js_string \<Rightarrow> js_string \<Rightarrow> js_string \<Rightarrow> js_string" where
  "generateKey text from to = text @ [separator] @ from @ [separator] @ to"

text \<open>\<open>get\<close>: \<open>startTime\<close> and \<open>now\<close> are the first two readings of the clock; \<open>t3\<close> is
  the third, made by \<open>saveCache\<close> on the expired path and by the response-time update on
  the hit path.\<close>

definition get ::
  "int \<Rightarrow> int \<Rightarrow> int \<Rightarrow> js_string \<Rightarrow> js_string \<Rightarrow> js_string \<Rightarrow> TranslationCache
     \<Rightarrow> js_string option \<times> TranslationCache" where
  "get startTime now t3 text from to s =
     (let key = generateKey text from to in
      case map_of (cache s) key of
        None \<Rightarrow> (None, s\<lparr>metrics := (metrics s)\<lparr>misses := misses (metrics s) + 1\<rparr>\<rparr>)
      | Some cachedItem \<Rightarrow>
          if now - timestamp cachedItem > expirationTime s
          then (None, saveCache t3 (s\<lparr>cache := AList.delete key (cache s)\<rparr>))
          else (Some (result cachedItem),
                s\<lparr>metrics := (metrics s)
                     \<lparr>hits := hits (metrics s) + 1,
                      totalResponseTime := totalResponseTime (metrics s) + (t3 - startTime),
                      responses := responses (metrics s) + 1\<rparr>\<rparr>))"

text \<open>The \<open>while\<close> loop of \<open>checkAndCleanCacheSize\<close>: \<open>items\<close> is the sorted array that
  \<open>shift\<close> consumes, the number is \<open>cleanedCount\<close>.\<close>

fun evict_loop :: "entries \<Rightarrow> TranslationCache \<Rightarrow> nat \<Rightarrow> TranslationCache \<times> nat" where
  "evict_loop [] s cleanedCount = (s, cleanedCount)"
| "evict_loop ((key, item) # items) s cleanedCount =
     (if currentCacheSize s > maxCacheSize s
      then evict_loop items
             (s\<lparr>cache := AList.delete key (cache s),
                currentCacheSize := currentCacheSize s - calculateItemSize key item\<rparr>)
             (cleanedCount + 1)
      else (s, cleanedCount))"

text \<open>\<open>Array.prototype.sort\<close> is stable, as \<open>sort_key\<close> is.\<close>

definition checkAndCleanCacheSize :: "int \<Rightarrow> TranslationCache \<Rightarrow> TranslationCache" where
  "checkAndCleanCacheSize tSave s =
     (if currentCacheSize s \<le> maxCacheSize s then s
      else
        let items = sort_key (\<lambda>(key, item). timestamp item) (cache s);
            (s', cleanedCount) = evict_loop items s 0
        in if cleanedCount > 0 then saveCache tSave s' else s')"

text \<open>The first statements of \<open>set\<close>, up to \<open>this.cache.set(key, cacheItem)\<close>; \<open>now\<close> is
  the reading that becomes the entry's timestamp.\<close>

definition set_store ::
  "int \<Rightarrow> js_string \<Rightarrow> js_string \<Rightarrow> js_string \<Rightarrow> js_string \<Rightarrow> TranslationCache
     \<Rightarrow> TranslationCache" where
  "set_store now text res from to s =
     (let key = generateKey text from to;
          cacheItem = \<lparr>result = res, timestamp = now, from_lang = from, to_lang = to\<rparr>;
          s1 = (case map_of (cache s) key of
                  Some oldItem \<Rightarrow>
                    s\<lparr>currentCacheSize := currentCacheSize s - calculateItemSize key oldItem\<rparr>
                | None \<Rightarrow> s);
          newItemSize = calculateItemSize key cacheItem;
          s2 = s1\<lparr>currentCacheSize := currentCacheSize s1 + newItemSize\<rparr>
      in s2\<lparr>cache := AList.update key cacheItem (cache s2)\<rparr>)"

text \<open>\<open>set\<close>: \<open>tEvict\<close> is the reading of the \<open>saveCache\<close> inside
  \<open>checkAndCleanCacheSize\<close>, \<open>tSave\<close> the reading of the last \<open>saveCache\<close>.\<close>

definition set_tc ::
  "int \<Rightarrow> int \<Rightarrow> int \<Rightarrow> js_string \<Rightarrow> js_string \<Rightarrow> js_string \<Rightarrow> js_string
     \<Rightarrow> TranslationCache \<Rightarrow> TranslationCache" where
  "set_tc now tEvict tSave text res from to s =
     saveCache tSave (checkAndCleanCacheSize tEvict (set_store now text res from to s))"

definition getMetrics :: "TranslationCache \<Rightarrow> MetricsSnapshot" where
  "getMetrics s =
     (let total = hits (metrics s) + misses (metrics s) in
      \<lparr>hitRate =
         (if total > 0
          then double_mul (double_div (real_of_int (hits (metrics s))) (real_of_int total)) 100
          else 0),
       avgResponseTime =
         (if responses (metrics s) > 0
          then double_div (real_of_int (totalResponseTime (metrics s)))
                 (real_of_int (responses (metrics s)))
          else 0),
       size_m = currentCacheSize s\<rparr>)"

definition clear :: "int \<Rightarrow> TranslationCache \<Rightarrow> TranslationCache" where
  "clear tSave s = saveCache tSave (s\<lparr>cache := [], currentCacheSize := 0\<rparr>)"

definition size_tc :: "TranslationCache \<Rightarrow> nat" where
  "size_tc s = length (cache s)"

text \<open>The constructor: \<open>tInit\<close> is the reading of the field initialiser of
  \<open>lastSaveTime\<close>, \<open>now\<close> and \<open>tSave\<close> are the readings of \<open>cleanExpiredCache\<close>.
  \<open>context\<close> is the stored value of the extension context. An argument left out is
  \<open>None\<close> and takes its default; the two numbers are integers, as the configuration
  declares them.\<close>

definition constructor ::
  "int \<Rightarrow> int \<Rightarrow> int \<Rightarrow> bool \<Rightarrow> entries option \<Rightarrow> int option \<Rightarrow> int option
     \<Rightarrow> TranslationCache" where
  "constructor tInit now tSave getThrows context expirationDays maxCacheSizeMB =
     (let days = (case expirationDays of None \<Rightarrow> 3 | Some d \<Rightarrow> d);
          mb = (case maxCacheSizeMB of None \<Rightarrow> 20 | Some m \<Rightarrow> m);
          s = \<lparr>cache = [],
               expirationTime = days * 24 * 60 * 60 * 1000,
               globalState = context,
               maxCacheSize = mb * 1024 * 1024,
               currentCacheSize = 0,
               metrics = \<lparr>hits = 0, misses = 0, totalResponseTime = 0, responses = 0\<rparr>,
               lastSaveTime = tInit\<rparr>
      in cleanExpiredCache now tSave (loadCache getThrows s))"

subsection \<open>The specification's notions\<close>

text \<open>The byte-size estimate of one entry, in the specification's words.\<close>

definition byteSizeEstimate :: "js_string \<Rightarrow> js_string \<Rightarrow> js_string \<Rightarrow> js_string \<Rightarrow> int" where
  "byteSizeEstimate key val sourceTag targetTag =
     2 * (int (length key) + int (length val) + int (length sourceTag) + int (length targetTag)) + 8"

text \<open>The sum of the byte-size estimates of the entries of a map.\<close>

definition entriesSize :: "entries \<Rightarrow> int" where
  "entriesSize c = sum_list (map (\<lambda>(key, item). calculateItemSize key item) c)"

text \<open>The standing invariant of the specification's Store: the accounted size is the sum
  over the live entries.\<close>

definition sizeInvariant :: "TranslationCache \<Rightarrow> bool" where
  "sizeInvariant s = (currentCacheSize s = entriesSize (cache s))"

text \<open>A \<open>Map\<close> holds a key once.\<close>

definition distinctKeys :: "TranslationCache \<Rightarrow> bool" where
  "distinctKeys s = distinct (map fst (cache s))"

subsection \<open>Runs of the public methods\<close>

text \<open>A call of \<open>get\<close>, \<open>set\<close> or \<open>clear\<close>, with the readings of the clock it makes.\<close>

datatype operation =
    Get int int int js_string js_string js_string
  | Set int int int js_string js_string js_string js_string
  | Clear int

fun step :: "operation \<Rightarrow> TranslationCache \<Rightarrow> TranslationCache" where
  "step (Get startTime now t3 text from to) s = snd (get startTime now t3 text from to s)"
| "step (Set now tEvict tSave text res from to) s = set_tc now tEvict tSave text res from to s"
| "step (Clear tSave) s = clear tSave s"

definition run :: "operation list \<Rightarrow> TranslationCache \<Rightarrow> TranslationCache" where
  "run ops s = fold step ops s"

text \<open>What a call adds to the metrics, seen from outside: a hit is a call of \<open>get\<close> that
  returns a value, and its latency is the elapsed time \<open>get\<close> measures; a miss is a call of
  \<open>get\<close> for a key the map does not hold.\<close>

fun hitLatency :: "operation \<Rightarrow> TranslationCache \<Rightarrow> int list" where
  "hitLatency (Get startTime now t3 text from to) s =
     (if fst (get startTime now t3 text from to s) \<noteq> None then [t3 - startTime] else [])"
| "hitLatency (Set now tEvict tSave text res from to) s = []"
| "hitLatency (Clear tSave) s = []"

fun isMiss :: "operation \<Rightarrow> TranslationCache \<Rightarrow> bool" where
  "isMiss (Get startTime now t3 text from to) s =
     (map_of (cache s) (generateKey text from to) = None)"
| "isMiss (Set now tEvict tSave text res from to) s = False"
| "isMiss (Clear tSave) s = False"

fun hitLatencies :: "operation list \<Rightarrow> TranslationCache \<Rightarrow> int list" where
  "hitLatencies [] s = []"
| "hitLatencies (x # ops) s = hitLatency x s @ hitLatencies ops (step x s)"

fun missCount :: "operation list \<Rightarrow> TranslationCache \<Rightarrow> nat" where
  "missCount [] s = 0"
| "missCount (x # ops) s = (if isMiss x s then 1 else 0) + missCount ops (step x s)"

subsection \<open>Example inputs\<close>

text \<open>The map entry that \<open>set(text, res, from, to)\<close> stores at time \<open>t\<close>, for ASCII
  arguments.\<close>

definition entry :: "string \<Rightarrow> string \<Rightarrow> string \<Rightarrow> string \<Rightarrow> int \<Rightarrow> js_string \<times> CacheItem" where
  "entry text res from to t =
     (generateKey (js text) (js from) (js to),
      \<lparr>result = js res, timestamp = t, from_lang = js from, to_lang = js to\<rparr>)"

section \<open>Basic facts\<close>

lemmas cache_defs =
  constructor_def loadCache_def cleanExpiredCache_def saveCache_def generateKey_def
  separator_def js_def get_def checkAndCleanCacheSize_def set_store_def set_tc_def
  getMetrics_def clear_def size_tc_def calculateItemSize_def byteSizeEstimate_def
  entriesSize_def entry_def run_def Let_def

lemma calculateItemSize_estimate:
  "calculateItemSize key item =
     byteSizeEstimate key (result item) (from_lang item) (to_lang item)"
  by (simp add: calculateItemSize_def byteSizeEstimate_def)

lemma saveCache_frame [simp]:
  "cache (saveCache t s) = cache s"
  "currentCacheSize (saveCache t s) = currentCacheSize s"
  "metrics (saveCache t s) = metrics s"
  "expirationTime (saveCache t s) = expirationTime s"
  "maxCacheSize (saveCache t s) = maxCacheSize s"
  by (simp_all add: saveCache_def)

lemma evict_loop_frame:
  "evict_loop items s n = (s', n') \<Longrightarrow>
     expirationTime s' = expirationTime s \<and> maxCacheSize s' = maxCacheSize s \<and>
     metrics s' = metrics s \<and> lastSaveTime s' = lastSaveTime s \<and>
     globalState s' = globalState s"
  by (induction items s n rule: evict_loop.induct) (auto split: if_splits)

lemma evict_loop_lookup:
  "evict_loop items s n = (s', n') \<Longrightarrow>
     map_of (cache s') k = None \<or> map_of (cache s') k = map_of (cache s) k"
proof (induction items s n rule: evict_loop.induct)
  case (1 s cleanedCount)
  then show ?case by simp
next
  case (2 key item items s cleanedCount)
  show ?case
  proof (cases "currentCacheSize s > maxCacheSize s")
    case True
    with 2 show ?thesis
      by (auto simp: AList.delete_conv')
  next
    case False
    with 2 show ?thesis by simp
  qed
qed

lemma checkAndCleanCacheSize_lookup:
  "map_of (cache (checkAndCleanCacheSize t s)) k = None \<or>
   map_of (cache (checkAndCleanCacheSize t s)) k = map_of (cache s) k"
proof (cases "currentCacheSize s \<le> maxCacheSize s")
  case True
  then show ?thesis by (simp add: checkAndCleanCacheSize_def)
next
  case False
  obtain s' n' where e: "evict_loop (sort_key (\<lambda>(key, item). timestamp item) (cache s)) s 0 = (s', n')"
    by (cases "evict_loop (sort_key (\<lambda>(key, item). timestamp item) (cache s)) s 0")
  from evict_loop_lookup [OF e, of k] False e show ?thesis
    by (auto simp: checkAndCleanCacheSize_def)
qed

lemma checkAndCleanCacheSize_frame [simp]:
  "expirationTime (checkAndCleanCacheSize t s) = expirationTime s"
  "maxCacheSize (checkAndCleanCacheSize t s) = maxCacheSize s"
  "metrics (checkAndCleanCacheSize t s) = metrics s"
proof -
  obtain s' n' where e: "evict_loop (sort_key (\<lambda>(key, item). timestamp item) (cache s)) s 0 = (s', n')"
    by (cases "evict_loop (sort_key (\<lambda>(key, item). timestamp item) (cache s)) s 0")
  from evict_loop_frame [OF e] e
  show "expirationTime (checkAndCleanCacheSize t s) = expirationTime s"
    "maxCacheSize (checkAndCleanCacheSize t s) = maxCacheSize s"
    "metrics (checkAndCleanCacheSize t s) = metrics s"
    by (auto simp: checkAndCleanCacheSize_def)
qed

lemma set_store_frame [simp]:
  "expirationTime (set_store now text res from to s) = expirationTime s"
  "maxCacheSize (set_store now text res from to s) = maxCacheSize s"
  "metrics (set_store now text res from to s) = metrics s"
  by (simp_all add: set_store_def Let_def split: option.splits)

lemma set_store_cache:
  "map_of (cache (set_store now text res from to s)) =
     (map_of (cache s))(generateKey text from to \<mapsto>
        \<lparr>result = res, timestamp = now, from_lang = from, to_lang = to\<rparr>)"
  by (simp add: set_store_def Let_def AList.update_conv' split: option.splits)

lemma first_separator:
  "a \<notin> set p \<Longrightarrow> a \<notin> set q \<Longrightarrow> p @ a # r = q @ a # r' \<Longrightarrow> p = q \<and> r = r'"
proof (induction p arbitrary: q)
  case Nil
  then show ?case by (cases q) auto
next
  case (Cons x p)
  then show ?case by (cases q) auto
qed

lemma key_split:
  assumes "xs @ [a] @ ys = xs' @ [a] @ ys'" "a \<notin> set ys" "a \<notin> set ys'"
  shows "xs = xs' \<and> ys = ys'"
proof -
  from assms(1) have "rev (xs @ [a] @ ys) = rev (xs' @ [a] @ ys')"
    by (rule arg_cong)
  then have e: "rev ys @ a # rev xs = rev ys' @ a # rev xs'"
    by simp
  have n1: "a \<notin> set (rev ys)" and n2: "a \<notin> set (rev ys')"
    using assms(2,3) by simp_all
  have "rev ys = rev ys' \<and> rev xs = rev xs'"
    by (rule first_separator [OF n1 n2 e])
  then show ?thesis by simp
qed

lemma generateKey_inj:
  assumes "generateKey text1 from1 to1 = generateKey text2 from2 to2"
    and "separator \<notin> set from1 \<union> set to1 \<union> set from2 \<union> set to2"
  shows "text1 = text2 \<and> from1 = from2 \<and> to1 = to2"
proof -
  from assms(1) have e: "(text1 @ [separator] @ from1) @ [separator] @ to1
      = (text2 @ [separator] @ from2) @ [separator] @ to2"
    by (simp add: generateKey_def)
  from key_split [OF e] assms(2)
  have 1: "text1 @ [separator] @ from1 = text2 @ [separator] @ from2" and 2: "to1 = to2"
    by auto
  from key_split [OF 1] assms(2) 2 show ?thesis by auto
qed

lemma entriesSize_simps [simp]:
  "entriesSize [] = 0"
  "entriesSize ((key, item) # c) = calculateItemSize key item + entriesSize c"
  by (simp_all add: entriesSize_def)

lemma fold_delete_filter:
  "fold (\<lambda>(key, item). AList.delete key) ks c = filter (\<lambda>e. fst e \<notin> fst ` set ks) c"
proof (induction ks arbitrary: c)
  case Nil
  then show ?case by simp
next
  case (Cons k ks)
  obtain key item where k: "k = (key, item)" by (cases k)
  have "filter (\<lambda>e. fst e \<notin> fst ` set ks) (AList.delete key c)
      = filter (\<lambda>e. fst e \<notin> fst ` set ((key, item) # ks)) c"
    by (induction c) (auto simp: AList.delete_eq)
  with Cons k show ?case by simp
qed

lemma evict_loop_char:
  "evict_loop items s n = (s', n') \<Longrightarrow>
   \<exists>m\<le>length items.
      n' = n + m \<and>
      cache s' = fold (\<lambda>(key, item). AList.delete key) (take m items) (cache s) \<and>
      currentCacheSize s' = currentCacheSize s - entriesSize (take m items) \<and>
      (\<forall>j<m. currentCacheSize s - entriesSize (take j items) > maxCacheSize s) \<and>
      (m = length items \<or> currentCacheSize s' \<le> maxCacheSize s)"
proof (induction items s n arbitrary: s' n' rule: evict_loop.induct)
  case (1 s cleanedCount)
  then show ?case by simp
next
  case (2 key item items s cleanedCount)
  show ?case
  proof (cases "currentCacheSize s > maxCacheSize s")
    case False
    with 2(2) have "s' = s" "n' = cleanedCount" by simp_all
    with False show ?thesis by (intro exI [of _ 0]) simp
  next
    case True
    let ?s1 = "s\<lparr>cache := AList.delete key (cache s),
                  currentCacheSize := currentCacheSize s - calculateItemSize key item\<rparr>"
    from True 2(2) have "evict_loop items ?s1 (cleanedCount + 1) = (s', n')" by simp
    from 2(1) [OF True this] obtain m where m: "m \<le> length items"
      "n' = cleanedCount + 1 + m"
      "cache s' = fold (\<lambda>(key, item). AList.delete key) (take m items) (cache ?s1)"
      "currentCacheSize s' = currentCacheSize ?s1 - entriesSize (take m items)"
      "\<forall>j<m. currentCacheSize ?s1 - entriesSize (take j items) > maxCacheSize ?s1"
      "m = length items \<or> currentCacheSize s' \<le> maxCacheSize ?s1"
      by blast
    have j: "\<forall>j<Suc m. currentCacheSize s - entriesSize (take j ((key, item) # items))
               > maxCacheSize s"
    proof (intro allI impI)
      fix j assume "j < Suc m"
      show "currentCacheSize s - entriesSize (take j ((key, item) # items)) > maxCacheSize s"
      proof (cases j)
        case 0
        with True show ?thesis by simp
      next
        case (Suc i)
        with \<open>j < Suc m\<close> m(5) have "currentCacheSize ?s1 - entriesSize (take i items)
           > maxCacheSize ?s1" by simp
        with Suc show ?thesis by simp
      qed
    qed
    show ?thesis
      using m j by (intro exI [of _ "Suc m"]) simp
  qed
qed


lemma checkAndCleanCacheSize_char:
  "\<exists>evicted kept.
      sort_key (\<lambda>(key, item). timestamp item) (cache s) = evicted @ kept \<and>
      cache (checkAndCleanCacheSize t s) = filter (\<lambda>e. fst e \<notin> fst ` set evicted) (cache s) \<and>
      currentCacheSize (checkAndCleanCacheSize t s) = currentCacheSize s - entriesSize evicted \<and>
      (\<forall>j<length evicted. currentCacheSize s - entriesSize (take j evicted) > maxCacheSize s) \<and>
      (kept = [] \<or> currentCacheSize (checkAndCleanCacheSize t s) \<le> maxCacheSize s)"
proof (cases "currentCacheSize s \<le> maxCacheSize s")
  case True
  then show ?thesis
    by (intro exI [of _ "[]"] exI [of _ "sort_key (\<lambda>(key, item). timestamp item) (cache s)"])
      (simp add: checkAndCleanCacheSize_def)
next
  case False
  let ?items = "sort_key (\<lambda>(key, item). timestamp item) (cache s)"
  obtain s' n' where e: "evict_loop ?items s 0 = (s', n')"
    by (cases "evict_loop ?items s 0")
  from evict_loop_char [OF e] obtain m where m: "m \<le> length ?items"
    "cache s' = fold (\<lambda>(key, item). AList.delete key) (take m ?items) (cache s)"
    "currentCacheSize s' = currentCacheSize s - entriesSize (take m ?items)"
    "\<forall>j<m. currentCacheSize s - entriesSize (take j ?items) > maxCacheSize s"
    "m = length ?items \<or> currentCacheSize s' \<le> maxCacheSize s"
    by blast
  have c: "cache (checkAndCleanCacheSize t s) = cache s'"
    and z: "currentCacheSize (checkAndCleanCacheSize t s) = currentCacheSize s'"
    using False e by (simp_all add: checkAndCleanCacheSize_def)
  have l: "length (take m ?items) = m"
    using m(1) by simp
  have j: "\<forall>j<length (take m ?items).
             currentCacheSize s - entriesSize (take j (take m ?items)) > maxCacheSize s"
    using m(4) l by (simp add: min_def)
  have k: "drop m ?items = [] \<or> currentCacheSize s' \<le> maxCacheSize s"
    using m(5) by auto
  show ?thesis
    apply (rule exI [of _ "take m ?items"])
    apply (rule exI [of _ "drop m ?items"])
    using c z m(2,3) j k by (simp only: fold_delete_filter append_take_drop_id)
qed

lemma evicted_older:
  assumes "sort_key (\<lambda>(key, item). timestamp item) c = evicted @ kept"
  shows "\<forall>e\<in>set evicted. \<forall>r\<in>set (filter (\<lambda>e. fst e \<notin> fst ` set evicted) c).
           timestamp (snd e) \<le> timestamp (snd r)"
proof (intro ballI)
  fix e r
  assume e: "e \<in> set evicted" and r: "r \<in> set (filter (\<lambda>e. fst e \<notin> fst ` set evicted) c)"
  from r have "r \<in> set c" "r \<notin> set evicted" by auto
  moreover have "set c = set evicted \<union> set kept"
    using arg_cong [OF assms, of set] by simp
  ultimately have rk: "r \<in> set kept" by auto
  have "sorted (map (\<lambda>(key, item). timestamp item) (evicted @ kept))"
    using sorted_sort_key [of "\<lambda>(key, item). timestamp item" c] assms by simp
  then have "\<forall>x\<in>set evicted. \<forall>y\<in>set kept.
      (\<lambda>(key, item). timestamp item) x \<le> (\<lambda>(key, item). timestamp item) y"
    by (simp add: sorted_append)
  with e rk show "timestamp (snd e) \<le> timestamp (snd r)"
    by (auto simp: case_prod_beta)
qed

lemma kept_empty:
  assumes "sort_key f c = evicted @ []"
  shows "filter (\<lambda>e. fst e \<notin> fst ` set evicted) c = []"
proof -
  have "set c = set evicted"
    using arg_cong [OF assms, of set] by simp
  then show ?thesis by (auto simp: filter_empty_conv)
qed

lemma get_result:
  "fst (get startTime now t3 text from to s) =
     (case map_of (cache s) (generateKey text from to) of
        None \<Rightarrow> None
      | Some item \<Rightarrow> if now - timestamp item > expirationTime s then None
                     else Some (result item))"
  by (simp add: get_def Let_def split: option.splits)

lemma get_metrics:
  "metrics (snd (get startTime now t3 text from to s)) =
     (case map_of (cache s) (generateKey text from to) of
        None \<Rightarrow> (metrics s)\<lparr>misses := misses (metrics s) + 1\<rparr>
      | Some item \<Rightarrow>
          if now - timestamp item > expirationTime s then metrics s
          else (metrics s)\<lparr>hits := hits (metrics s) + 1,
                 totalResponseTime := totalResponseTime (metrics s) + (t3 - startTime),
                 responses := responses (metrics s) + 1\<rparr>)"
  by (simp add: get_def Let_def split: option.splits)

lemma set_tc_metrics [simp]: "metrics (set_tc now tEvict tSave text res from to s) = metrics s"
  by (simp add: set_tc_def)

lemma clear_metrics [simp]: "metrics (clear t s) = metrics s"
  by (simp add: clear_def)

lemma step_metrics:
  "metrics (step x s) =
     \<lparr>hits = hits (metrics s) + int (length (hitLatency x s)),
      misses = misses (metrics s) + (if isMiss x s then 1 else 0),
      totalResponseTime = totalResponseTime (metrics s) + sum_list (hitLatency x s),
      responses = responses (metrics s) + int (length (hitLatency x s))\<rparr>"
  by (cases x) (auto simp: get_metrics get_result split: option.splits)

lemma run_metrics:
  "metrics (run ops s) =
     \<lparr>hits = hits (metrics s) + int (length (hitLatencies ops s)),
      misses = misses (metrics s) + int (missCount ops s),
      totalResponseTime = totalResponseTime (metrics s) + sum_list (hitLatencies ops s),
      responses = responses (metrics s) + int (length (hitLatencies ops s))\<rparr>"
proof (induction ops arbitrary: s)
  case Nil
  then show ?case by (simp add: run_def)
next
  case (Cons x ops)
  have "run (x # ops) s = run ops (step x s)"
    by (simp add: run_def)
  then show ?case
    by (simp add: Cons step_metrics)
qed

lemma loadCache_metrics [simp]: "metrics (loadCache g s) = metrics s"
proof -
  have f: "metrics (fold (\<lambda>(key, item) s'.
                  s'\<lparr>cache := AList.update key item (cache s'),
                     currentCacheSize := currentCacheSize s' + calculateItemSize key item\<rparr>)
               d s0) = metrics s0" for d s0
    by (induction d arbitrary: s0) auto
  show ?thesis
    by (simp add: loadCache_def f split: option.splits)
qed

lemma cleanExpiredCache_metrics [simp]: "metrics (cleanExpiredCache now t s) = metrics s"
  by (simp add: cleanExpiredCache_def Let_def split: prod.splits)

lemma constructor_metrics:
  "metrics (constructor tInit now tSave g ctx days mb) =
     \<lparr>hits = 0, misses = 0, totalResponseTime = 0, responses = 0\<rparr>"
  by (simp add: constructor_def Let_def)

subsection \<open>Rounding to a double\<close>

lemmas double_defs =
  double_div_def double_mul_def roundToDouble_def exponent2_def roundHalfEven_def scale2_def
  compute_bitlen

text \<open>The rounding is within half a unit in the last place: the relative error is at most
  \<open>2^-53\<close>.\<close>

lemma scale2_powi: "scale2 x e = x * 2 powi e"
  by (simp add: scale2_def power_int_def field_simps power_inverse)

lemma roundHalfEven_near: "\<bar>of_int (roundHalfEven y) - y\<bar> \<le> 1 / 2"
proof -
  have "of_int \<lfloor>y\<rfloor> \<le> y" "y < of_int \<lfloor>y\<rfloor> + 1"
    by linarith+
  then show ?thesis
    by (auto simp: roundHalfEven_def Let_def)
qed

lemma exponent2_bounds:
  assumes "x > 0"
  shows "2 powi (exponent2 x) \<le> x \<and> x < 2 powi (exponent2 x + 1)"
proof (cases "x \<ge> 1")
  case True
  let ?n = "\<lfloor>x\<rfloor>"
  let ?b = "bitlen ?n"
  from True have n: "?n > 0" by linarith
  from bitlen_bounds [OF n] have b: "2 ^ nat (?b - 1) \<le> ?n" "?n < 2 ^ nat ?b"
    by simp_all
  from n have b1: "?b \<ge> 1"
    using bitlen_eq_zero_iff [of ?n] bitlen_nonneg [of ?n] by linarith
  have lo: "(2::real) ^ nat (?b - 1) \<le> x"
    using b(1) by (simp add: le_floor_iff)
  have hi: "x < (2::real) ^ nat ?b"
    using b(2) by (simp add: floor_less_iff)
  have e: "exponent2 x = ?b - 1"
    using True by (simp add: exponent2_def)
  show ?thesis
    using lo hi b1 by (simp add: e power_int_def)
next
  case False
  let ?y = "1 / x"
  let ?c = "\<lceil>?y\<rceil> - 1"
  let ?b = "bitlen ?c"
  from False assms have y1: "?y > 1" by simp
  then have c: "?c > 0" by linarith
  from bitlen_bounds [OF c] have b: "2 ^ nat (?b - 1) \<le> ?c" "?c < 2 ^ nat ?b"
    by simp_all
  from c have b1: "?b \<ge> 1"
    using bitlen_eq_zero_iff [of ?c] bitlen_nonneg [of ?c] by linarith
  have "2 ^ nat (?b - 1) < \<lceil>?y\<rceil>"
    using b(1) by simp
  then have "(2::real) ^ nat (?b - 1) < 1 / x"
    by (simp add: less_ceiling_iff)
  then have hi: "x < 1 / 2 ^ nat (?b - 1)"
    using assms by (simp add: field_simps)
  have "\<lceil>?y\<rceil> \<le> 2 ^ nat ?b"
    using b(2) by simp
  then have "1 / x \<le> (2::real) ^ nat ?b"
    by (simp add: ceiling_le_iff)
  then have lo: "1 / 2 ^ nat ?b \<le> x"
    using assms by (simp add: field_simps)
  have e: "exponent2 x = - ?b"
    using False by (simp add: exponent2_def)
  have p1: "(2::real) powi (- ?b) = 1 / 2 ^ nat ?b"
    using b1 by (simp add: power_int_def field_simps power_inverse)
  have p2: "(2::real) powi (- ?b + 1) = 1 / 2 ^ nat (?b - 1)"
  proof (cases "?b = 1")
    case True
    then show ?thesis by simp
  next
    case False
    with b1 have "- ?b + 1 < 0" by simp
    then show ?thesis
      by (simp add: power_int_def field_simps power_inverse)
  qed
  show ?thesis
    using lo hi by (simp only: e p1 p2)
qed

lemma powi_cancel: "(2::real) powi (- e) * 2 powi e = 1"
  by (simp add: power_int_minus)

lemma roundToDouble_error:
  "\<bar>roundToDouble x - x\<bar> \<le> \<bar>x\<bar> / 2 ^ 53"
proof (cases "x = 0")
  case True
  then show ?thesis by (simp add: roundToDouble_def)
next
  case False
  let ?E = "exponent2 \<bar>x\<bar>"
  let ?e = "?E - 52"
  let ?m = "roundHalfEven (\<bar>x\<bar> * 2 powi (- ?e))"
  have r: "roundToDouble x = sgn x * (of_int ?m * 2 powi ?e)"
    using False by (simp add: roundToDouble_def Let_def scale2_powi)
  have x: "x = sgn x * \<bar>x\<bar>"
    by (simp add: sgn_mult_abs)
  have "\<bar>roundToDouble x - x\<bar> = \<bar>sgn x * (of_int ?m * 2 powi ?e - \<bar>x\<bar>)\<bar>"
    by (subst (2) x) (simp only: r right_diff_distrib)
  also have "\<dots> = \<bar>of_int ?m * 2 powi ?e - \<bar>x\<bar>\<bar>"
    using False by (simp add: abs_mult abs_sgn_eq)
  also have "of_int ?m * 2 powi ?e - \<bar>x\<bar>
      = (of_int ?m - \<bar>x\<bar> * 2 powi (- ?e)) * 2 powi ?e"
    by (simp only: left_diff_distrib mult.assoc powi_cancel mult_1_right)
  also have "\<bar>\<dots>\<bar> = \<bar>of_int ?m - \<bar>x\<bar> * 2 powi (- ?e)\<bar> * 2 powi ?e"
    by (simp add: abs_mult)
  also have "\<dots> \<le> 1 / 2 * 2 powi ?e"
    by (intro mult_right_mono roundHalfEven_near) simp
  also have "\<dots> = 2 powi ?E / 2 ^ 53"
    by (simp add: power_int_diff)
  also have "\<dots> \<le> \<bar>x\<bar> / 2 ^ 53"
    using exponent2_bounds [of "\<bar>x\<bar>"] False by (simp add: divide_right_mono)
  finally show ?thesis .
qed

text \<open>The rounded value has a significand of 53 bits.\<close>

lemma roundHalfEven_bounds:
  assumes "0 \<le> y" "y \<le> of_int k"
  shows "0 \<le> roundHalfEven y \<and> roundHalfEven y \<le> k"
proof -
  have f: "0 \<le> \<lfloor>y\<rfloor>" "\<lfloor>y\<rfloor> \<le> k"
    using assms by (simp_all add: le_floor_iff floor_le_iff)
  show ?thesis
  proof (cases "\<lfloor>y\<rfloor> = k")
    case True
    with assms(2) have "y = of_int \<lfloor>y\<rfloor>"
      using of_int_floor_le [of y] by simp
    then have "y - of_int \<lfloor>y\<rfloor> = 0" by simp
    with True f show ?thesis
      by (simp add: roundHalfEven_def Let_def)
  next
    case False
    with f have "\<lfloor>y\<rfloor> + 1 \<le> k" by simp
    with f show ?thesis
      by (auto simp: roundHalfEven_def Let_def)
  qed
qed

lemma roundToDouble_representable:
  "\<exists>m e. \<bar>m\<bar> \<le> 2 ^ 53 \<and> roundToDouble x = of_int m * 2 powi e"
proof (cases "x = 0")
  case True
  then show ?thesis
    by (intro exI [of _ 0]) (simp add: roundToDouble_def)
next
  case False
  let ?E = "exponent2 \<bar>x\<bar>"
  let ?e = "?E - 52"
  let ?y = "\<bar>x\<bar> * 2 powi (- ?e)"
  let ?m = "roundHalfEven ?y"
  have r: "roundToDouble x = sgn x * (of_int ?m * 2 powi ?e)"
    using False by (simp add: roundToDouble_def Let_def scale2_powi)
  have "\<bar>x\<bar> < 2 powi (?E + 1)"
    using exponent2_bounds [of "\<bar>x\<bar>"] False by simp
  then have "?y < 2 powi (?E + 1) * 2 powi (- ?e)"
    by (intro mult_strict_right_mono) simp_all
  also have "\<dots> = 2 powi ((?E + 1) + (- ?e))"
    by (subst power_int_add) simp_all
  also have "(?E + 1) + (- ?e) = 53"
    by simp
  also have "(2::real) powi 53 = 2 ^ 53"
    by (simp add: power_int_def)
  finally have "?y \<le> of_int (2 ^ 53)"
    by simp
  moreover have "0 \<le> ?y"
    by simp
  ultimately have b: "0 \<le> ?m \<and> ?m \<le> 2 ^ 53"
    by (rule roundHalfEven_bounds [rotated])
  have s: "sgn x = of_int (if x < 0 then - 1 else 1)"
    using False by (simp add: sgn_if)
  have "roundToDouble x = of_int ((if x < 0 then - 1 else 1) * ?m) * 2 powi ?e"
    unfolding r s by simp
  moreover have "\<bar>(if x < 0 then - 1 else 1) * ?m\<bar> = \<bar>?m\<bar>"
    by (simp only: abs_mult) simp
  then have "\<bar>(if x < 0 then - 1 else 1) * ?m\<bar> \<le> 2 ^ 53"
    using b by linarith
  ultimately show ?thesis
    by blast
qed

lemma double_div_error: "\<bar>double_div a b - a / b\<bar> \<le> \<bar>a / b\<bar> / 2 ^ 53"
  unfolding double_div_def by (rule roundToDouble_error)

lemma double_mul_error: "\<bar>double_mul a b - a * b\<bar> \<le> \<bar>a * b\<bar> / 2 ^ 53"
  unfolding double_mul_def by (rule roundToDouble_error)

text \<open>The values the source prints as \<open>55.00000000000001\<close>, \<open>33.33333333333333\<close> and
  \<open>0.3333333333333333\<close>.\<close>

lemma double_examples:
  "double_mul (double_div 11 20) 100 = 55 + 1 / 2 ^ 47"
  "double_mul (double_div 1 3) 100 = 2345624805922133 / 2 ^ 46"
  "double_div 1 3 = 6004799503160661 / 2 ^ 54"
  "double_mul (double_div 3 4) 100 = 75"
  by (simp_all add: double_defs Let_def)


subsection \<open>Keys stay unique\<close>

lemma evict_loop_distinct:
  "evict_loop items s n = (s', n') \<Longrightarrow> distinct (map fst (cache s)) \<Longrightarrow>
     distinct (map fst (cache s'))"
  by (induction items s n rule: evict_loop.induct)
    (auto split: if_splits simp: AList.distinct_delete simp del: AList.delete_eq)

lemma checkAndCleanCacheSize_distinct:
  assumes "distinctKeys s"
  shows "distinctKeys (checkAndCleanCacheSize t s)"
proof -
  obtain s' n' where e: "evict_loop (sort_key (\<lambda>(key, item). timestamp item) (cache s)) s 0 = (s', n')"
    by (cases "evict_loop (sort_key (\<lambda>(key, item). timestamp item) (cache s)) s 0")
  from evict_loop_distinct [OF e] assms e show ?thesis
    by (auto simp: checkAndCleanCacheSize_def distinctKeys_def)
qed

lemma set_store_distinct:
  "distinctKeys s \<Longrightarrow> distinctKeys (set_store now text res from to s)"
  by (simp add: set_store_def Let_def distinctKeys_def AList.distinct_update split: option.splits)

lemma set_tc_distinct:
  "distinctKeys s \<Longrightarrow> distinctKeys (set_tc now tEvict tSave text res from to s)"
proof -
  assume "distinctKeys s"
  then have "distinctKeys (checkAndCleanCacheSize tEvict (set_store now text res from to s))"
    by (intro checkAndCleanCacheSize_distinct set_store_distinct)
  then show ?thesis
    by (simp add: set_tc_def distinctKeys_def)
qed

lemma get_distinct:
  "distinctKeys s \<Longrightarrow> distinctKeys (snd (get startTime now t3 text from to s))"
  by (simp add: get_def Let_def distinctKeys_def AList.distinct_delete split: option.splits)

lemma clear_distinct: "distinctKeys (clear t s)"
  by (simp add: clear_def distinctKeys_def)

lemma loadCache_distinct:
  assumes "distinctKeys s"
  shows "distinctKeys (loadCache g s)"
proof -
  have f: "distinct (map fst (cache s0)) \<Longrightarrow>
           distinct (map fst (cache (fold (\<lambda>(key, item) s'.
                  s'\<lparr>cache := AList.update key item (cache s'),
                     currentCacheSize := currentCacheSize s' + calculateItemSize key item\<rparr>)
               d s0)))" for d s0
    by (induction d arbitrary: s0) (auto simp: AList.distinct_update)
  show ?thesis
    using assms f [of "s\<lparr>currentCacheSize := 0\<rparr>"]
    by (simp add: loadCache_def distinctKeys_def split: option.splits)
qed

lemma cleanExpiredCache_distinct:
  assumes "distinctKeys s"
  shows "distinctKeys (cleanExpiredCache now t s)"
proof -
  have f: "distinct (map fst c0) \<Longrightarrow>
           distinct (map fst (fst (fold (\<lambda>(key, item) (c, n).
                    if now - timestamp item > expirationTime s
                    then (AList.delete key c, n + 1) else (c, n))
                 d (c0, n0 :: nat))))" for d c0 n0
    by (induction d arbitrary: c0 n0) (auto simp: AList.distinct_delete simp del: AList.delete_eq)
  show ?thesis
    using assms f [of "cache s" "cache s" 0]
    by (auto simp: cleanExpiredCache_def distinctKeys_def Let_def split: prod.splits)
qed

lemma constructor_distinct: "distinctKeys (constructor tInit now tSave g ctx days mb)"
  unfolding constructor_def Let_def
  by (rule cleanExpiredCache_distinct, rule loadCache_distinct) (simp add: distinctKeys_def)

lemma step_distinct: "distinctKeys s \<Longrightarrow> distinctKeys (step x s)"
  by (cases x) (simp_all add: get_distinct set_tc_distinct clear_distinct)

lemma run_distinct: "distinctKeys s \<Longrightarrow> distinctKeys (run ops s)"
  unfolding run_def by (induction ops arbitrary: s) (simp_all add: step_distinct)

lemma reachable_distinct:
  "distinctKeys (run ops (constructor tInit now tSave g ctx days mb))"
  by (rule run_distinct) (rule constructor_distinct)

lemma evicted_removed:
  assumes "sort_key f c = evicted @ kept" "distinct (map fst c)"
  shows "set evicted = set c - set (filter (\<lambda>e. fst e \<notin> fst ` set evicted) c)"
proof -
  have s: "set c = set evicted \<union> set kept"
    using arg_cong [OF assms(1), of set] by simp
  have i: "inj_on fst (set c)"
    using assms(2) by (simp add: distinct_map)
  show ?thesis
  proof (intro set_eqI iffI)
    fix e assume "e \<in> set evicted"
    with s show "e \<in> set c - set (filter (\<lambda>e. fst e \<notin> fst ` set evicted) c)"
      by auto
  next
    fix e assume "e \<in> set c - set (filter (\<lambda>e. fst e \<notin> fst ` set evicted) c)"
    then have e: "e \<in> set c" and "fst e \<in> fst ` set evicted" by auto
    then obtain e' where e': "e' \<in> set evicted" "fst e' = fst e" by auto
    with s have "e' \<in> set c" by auto
    with i e e'(2) have "e' = e" by (auto dest: inj_onD)
    with e'(1) show "e \<in> set evicted" by simp
  qed
qed

subsection \<open>Where the accounted size is kept\<close>

text \<open>\<open>loadCache\<close> establishes the invariant, and \<open>set\<close>, \<open>clear\<close> and every \<open>get\<close> that
  hits or misses keep it.\<close>

lemma entriesSize_update:
  "entriesSize (AList.update k v c) =
     entriesSize c - (case map_of c k of None \<Rightarrow> 0 | Some old \<Rightarrow> calculateItemSize k old)
       + calculateItemSize k v"
  by (induction c) (auto simp: entriesSize_def)

lemma entriesSize_delete:
  "distinct (map fst c) \<Longrightarrow> (k, item) \<in> set c \<Longrightarrow>
     entriesSize (AList.delete k c) = entriesSize c - calculateItemSize k item"
proof (induction c)
  case Nil
  then show ?case by simp
next
  case (Cons e c)
  obtain k' item' where e: "e = (k', item')" by (cases e)
  show ?case
  proof (cases "k' = k")
    case True
    with Cons.prems e have "item' = item"
      by (auto simp: image_iff)
    moreover have "AList.delete k c = c"
      using Cons.prems e True by (simp add: AList.delete_eq filter_id_conv) force
    ultimately show ?thesis
      using e True by (simp add: entriesSize_def)
  next
    case False
    with Cons e show ?thesis
      by (auto simp: entriesSize_def)
  qed
qed

lemma evict_loop_sizeInvariant:
  "evict_loop items s n = (s', n') \<Longrightarrow> distinct (map fst (cache s)) \<Longrightarrow>
     distinct (map fst items) \<Longrightarrow> set items \<subseteq> set (cache s) \<Longrightarrow>
     currentCacheSize s' - entriesSize (cache s') = currentCacheSize s - entriesSize (cache s)"
proof (induction items s n rule: evict_loop.induct)
  case (1 s cleanedCount)
  then show ?case by simp
next
  case (2 key item items s cleanedCount)
  show ?case
  proof (cases "currentCacheSize s > maxCacheSize s")
    case False
    with 2(2) show ?thesis by simp
  next
    case True
    let ?s1 = "s\<lparr>cache := AList.delete key (cache s),
                  currentCacheSize := currentCacheSize s - calculateItemSize key item\<rparr>"
    have e: "evict_loop items ?s1 (cleanedCount + 1) = (s', n')"
      using True 2(2) by simp
    have d: "distinct (map fst (cache ?s1))"
      using 2(3) by (simp add: AList.distinct_delete del: AList.delete_eq)
    have i: "distinct (map fst items)"
      using 2(4) by simp
    have sub: "set items \<subseteq> set (cache ?s1)"
    proof
      fix x assume x: "x \<in> set items"
      with 2(4) have "fst x \<noteq> key" by (auto simp: image_iff)
      moreover from x 2(5) have "x \<in> set (cache s)" by auto
      ultimately show "x \<in> set (cache ?s1)"
        by (cases x) (auto simp: AList.delete_eq)
    qed
    have "(key, item) \<in> set (cache s)"
      using 2(5) by simp
    from entriesSize_delete [OF 2(3) this] 2(1) [OF True e d i sub]
    show ?thesis by simp
  qed
qed

lemma sort_key_distinct_keys:
  assumes "distinct (map fst c)"
  shows "distinct (map fst (sort_key f c))"
proof -
  from assms have "distinct c" "inj_on fst (set c)"
    by (simp_all add: distinct_map)
  then show ?thesis
    by (simp add: distinct_map)
qed

lemma checkAndCleanCacheSize_sizeInvariant:
  assumes "distinctKeys s" "sizeInvariant s"
  shows "sizeInvariant (checkAndCleanCacheSize t s)"
proof -
  let ?items = "sort_key (\<lambda>(key, item). timestamp item) (cache s)"
  obtain s' n' where e: "evict_loop ?items s 0 = (s', n')"
    by (cases "evict_loop ?items s 0")
  have "currentCacheSize s' - entriesSize (cache s') = currentCacheSize s - entriesSize (cache s)"
    using assms(1)
    by (intro evict_loop_sizeInvariant [OF e] sort_key_distinct_keys)
      (simp_all add: distinctKeys_def)
  with assms(2) e show ?thesis
    by (auto simp: checkAndCleanCacheSize_def sizeInvariant_def)
qed

lemma set_store_sizeInvariant:
  "sizeInvariant s \<Longrightarrow> sizeInvariant (set_store now text res from to s)"
  by (simp add: set_store_def Let_def sizeInvariant_def entriesSize_update split: option.splits)

lemma set_tc_sizeInvariant:
  assumes "distinctKeys s" "sizeInvariant s"
  shows "sizeInvariant (set_tc now tEvict tSave text res from to s)"
proof -
  have "sizeInvariant (checkAndCleanCacheSize tEvict (set_store now text res from to s))"
    using assms by (intro checkAndCleanCacheSize_sizeInvariant set_store_distinct
        set_store_sizeInvariant)
  then show ?thesis
    by (simp add: set_tc_def sizeInvariant_def)
qed

lemma clear_sizeInvariant: "sizeInvariant (clear t s)"
  by (simp add: clear_def sizeInvariant_def)

lemma get_sizeInvariant:
  assumes "sizeInvariant s" "fst (get startTime now t3 text from to s) \<noteq> None \<or>
     map_of (cache s) (generateKey text from to) = None"
  shows "sizeInvariant (snd (get startTime now t3 text from to s))"
  using assms by (auto simp: get_def Let_def sizeInvariant_def split: option.splits if_splits)

lemma loadCache_sizeInvariant:
  assumes "cache s = []" "\<forall>d. globalState s = Some d \<longrightarrow> distinct (map fst d)"
    "currentCacheSize s = 0"
  shows "sizeInvariant (loadCache g s)"
proof -
  have f: "distinct (map fst d) \<Longrightarrow> fst ` set d \<inter> fst ` set (cache s0) = {} \<Longrightarrow>
           sizeInvariant s0 \<Longrightarrow>
           sizeInvariant (fold (\<lambda>(key, item) s'.
                  s'\<lparr>cache := AList.update key item (cache s'),
                     currentCacheSize := currentCacheSize s' + calculateItemSize key item\<rparr>)
               d s0)" for d s0
  proof (induction d arbitrary: s0)
    case Nil
    then show ?case by simp
  next
    case (Cons e d)
    obtain k item where e: "e = (k, item)" by (cases e)
    let ?s1 = "s0\<lparr>cache := AList.update k item (cache s0),
                  currentCacheSize := currentCacheSize s0 + calculateItemSize k item\<rparr>"
    have n: "map_of (cache s0) k = None"
      using Cons.prems(2) e by (auto simp: map_of_eq_None_iff)
    have 1: "sizeInvariant ?s1"
      using Cons.prems(3) n by (simp add: sizeInvariant_def entriesSize_update)
    have 2: "fst ` set d \<inter> fst ` set (cache ?s1) = {}"
      using Cons.prems(1,2) e by (auto simp: AList.dom_update image_iff)
    have 3: "distinct (map fst d)"
      using Cons.prems(1) by simp
    from Cons.IH [OF 3 2 1] e show ?case by simp
  qed
  show ?thesis
  proof (cases "globalState s")
    case None
    with assms show ?thesis
      by (simp add: loadCache_def sizeInvariant_def)
  next
    case (Some d)
    with assms(2) have "distinct (map fst d)" by simp
    from f [OF this, of "s\<lparr>currentCacheSize := 0\<rparr>"] assms(1,3) Some show ?thesis
      by (simp add: loadCache_def sizeInvariant_def)
  qed
qed

subsection \<open>The expired path and the debounce\<close>

lemma get_expired:
  assumes "map_of (cache s) (generateKey text from to) = Some item"
    and "now - timestamp item > expirationTime s"
  shows "get startTime now t3 text from to s =
           (None, saveCache t3 (s\<lparr>cache := AList.delete (generateKey text from to) (cache s)\<rparr>))"
  using assms by (simp add: get_def)

lemma saveCache_written:
  "globalState (saveCache now s) = (if now - lastSaveTime s < 1000 then globalState s else Some (cache s))"
  "lastSaveTime (saveCache now s) = (if now - lastSaveTime s < 1000 then lastSaveTime s else now)"
  by (simp_all add: saveCache_def)

section \<open>The accounted size (C1)\<close>

text \<open>
  C1 says that after every operation, the sweep of the constructor included,
  \<open>currentCacheSize\<close> is the sum of the byte-size estimates of the entries in the map.
  The code breaks this where it deletes an expired entry: \<open>get\<close> and \<open>cleanExpiredCache\<close>
  call \<open>cache.delete\<close> and leave \<open>currentCacheSize\<close> as it was, while the eviction loop and
  the overwrite in \<open>set\<close> subtract the size of what they remove. Everywhere else the
  invariant is kept (lemmas \<open>loadCache_sizeInvariant\<close>, \<open>set_tc_sizeInvariant\<close>,
  \<open>clear_sizeInvariant\<close>, \<open>get_sizeInvariant\<close>).

  The code at two inputs. A cache built at time 0 with one day of expiration: after
  \<open>set("x", "y", "auto", "en")\<close> the size is 40, the sum over the map; after
  \<open>get("x", "auto", "en")\<close> one day and a millisecond later the map is empty, the sum is 0
  and the size is still 40. A cache built from a stored entry that is older than a day:
  the sweep empties the map and the size is the 40 that \<open>loadCache\<close> counted.
\<close>

theorem size_invariant_broken:
  "currentCacheSize
     (set_tc 0 0 0 (js ''x'') (js ''y'') (js ''auto'') (js ''en'')
        (constructor 0 0 0 False None (Some 1) (Some 20))) = 40 \<and>
   entriesSize (cache
     (set_tc 0 0 0 (js ''x'') (js ''y'') (js ''auto'') (js ''en'')
        (constructor 0 0 0 False None (Some 1) (Some 20)))) = 40 \<and>
   currentCacheSize
     (run [Set 0 0 0 (js ''x'') (js ''y'') (js ''auto'') (js ''en''),
           Get 86400001 86400001 86400001 (js ''x'') (js ''auto'') (js ''en'')]
        (constructor 0 0 0 False None (Some 1) (Some 20))) = 40 \<and>
   entriesSize (cache
     (run [Set 0 0 0 (js ''x'') (js ''y'') (js ''auto'') (js ''en''),
           Get 86400001 86400001 86400001 (js ''x'') (js ''auto'') (js ''en'')]
        (constructor 0 0 0 False None (Some 1) (Some 20)))) = 0 \<and>
   currentCacheSize
     (constructor 86400001 86400001 86400001 False
        (Some [entry ''x'' ''y'' ''auto'' ''en'' 0]) (Some 1) (Some 20)) = 40 \<and>
   entriesSize (cache
     (constructor 86400001 86400001 86400001 False
        (Some [entry ''x'' ''y'' ''auto'' ''en'' 0]) (Some 1) (Some 20))) = 0"
  by (simp add: cache_defs)

section \<open>An expired entry read by get (C2)\<close>

text \<open>
  C2 says that \<open>get\<close> on a present key whose age exceeds the expiration window deletes
  the entry, decrements the accounted size by the entry's estimate, schedules a write,
  returns absent and leaves the metrics alone. The code does all of it but the decrement
  (lemma \<open>get_expired\<close>: the state after is \<open>saveCache\<close> of the state with the key deleted).

  The code at an input: the entry \<open>hi|en|fr\<close>, estimate 42, loaded at time 0 and read
  one day and a millisecond later. \<open>get\<close> returns absent, the map is empty, the write
  is made, the metrics are unchanged, and \<open>currentCacheSize\<close> is still 42.
\<close>

theorem get_expired_keeps_size:
  "get 86400001 86400001 86400001 (js ''hi'') (js ''en'') (js ''fr'')
     (constructor 0 0 0 False (Some [entry ''hi'' ''salut'' ''en'' ''fr'' 0]) (Some 1) (Some 20))
   = (None,
      \<lparr>cache = [], expirationTime = 86400000, globalState = Some [],
       maxCacheSize = 20971520, currentCacheSize = 42,
       metrics = \<lparr>hits = 0, misses = 0, totalResponseTime = 0, responses = 0\<rparr>,
       lastSaveTime = 86400001\<rparr>) \<and>
   cache (constructor 0 0 0 False (Some [entry ''hi'' ''salut'' ''en'' ''fr'' 0]) (Some 1) (Some 20))
     = [entry ''hi'' ''salut'' ''en'' ''fr'' 0] \<and>
   currentCacheSize
     (constructor 0 0 0 False (Some [entry ''hi'' ''salut'' ''en'' ''fr'' 0]) (Some 1) (Some 20))
     = 42 \<and>
   byteSizeEstimate (generateKey (js ''hi'') (js ''en'') (js ''fr'')) (js ''salut'') (js ''en'') (js ''fr'')
     = 42"
  by (simp add: cache_defs)

section \<open>The debounce of saveCache (C3)\<close>

text \<open>
  C3 says that a save is dropped only when a write was made in the last 1000 ms, so that
  the write the sweep of the constructor asks for is made. In the code \<open>lastSaveTime\<close>
  starts at the time of construction, not at a time of writing, and \<open>saveCache\<close> drops
  every request that comes less than 1000 ms after it.

  The code at an input: the constructor finds one stored entry that is older than the
  window; the sweep removes it from the map and calls \<open>saveCache\<close> 999 ms after the
  construction began. No write is made: the global state still holds the expired entry,
  and \<open>lastSaveTime\<close> is the time of construction.
\<close>

theorem sweep_save_dropped:
  "constructor 90000000 90000000 90000999 False
     (Some [entry ''hi'' ''salut'' ''en'' ''fr'' 0]) (Some 1) (Some 20)
   = \<lparr>cache = [], expirationTime = 86400000,
      globalState = Some [entry ''hi'' ''salut'' ''en'' ''fr'' 0],
      maxCacheSize = 20971520, currentCacheSize = 42,
      metrics = \<lparr>hits = 0, misses = 0, totalResponseTime = 0, responses = 0\<rparr>,
      lastSaveTime = 90000000\<rparr>"
  by (simp add: cache_defs)

section \<open>Eviction order (C4)\<close>

text \<open>
  C4: after every \<open>set\<close>, entries are removed in ascending order of \<open>timestamp\<close> until
  \<open>currentCacheSize\<close> is at most \<open>maxCacheSize\<close> or the map is empty, and no entry is
  evicted while an entry with a strictly smaller timestamp stays.

  The entries \<open>set\<close> evicts are a prefix \<open>evicted\<close> of the map's entries sorted by
  timestamp (the map as it is once the new entry is stored); the map afterwards is the
  map without their keys, so that, keys being unique, \<open>evicted\<close> holds exactly the entries
  that have gone; the size has gone down by their sizes; before each removal the size was
  above the cap (so nothing is removed when it is not); at the end the map is empty or
  the size is within the cap; and every evicted entry is at most as young as every entry
  that stays.
\<close>

theorem set_evicts_oldest_first:
  "\<exists>evicted kept.
      sort_key (\<lambda>(key, item). timestamp item) (cache (set_store now text v from to s))
        = evicted @ kept \<and>
      cache (set_tc now tEvict tSave text v from to s)
        = filter (\<lambda>e. fst e \<notin> fst ` set evicted) (cache (set_store now text v from to s)) \<and>
      (distinctKeys s \<longrightarrow>
         set evicted = set (cache (set_store now text v from to s))
                        - set (cache (set_tc now tEvict tSave text v from to s))) \<and>
      currentCacheSize (set_tc now tEvict tSave text v from to s)
        = currentCacheSize (set_store now text v from to s) - entriesSize evicted \<and>
      (\<forall>j<length evicted.
         currentCacheSize (set_store now text v from to s) - entriesSize (take j evicted)
           > maxCacheSize s) \<and>
      (cache (set_tc now tEvict tSave text v from to s) = [] \<or>
       currentCacheSize (set_tc now tEvict tSave text v from to s) \<le> maxCacheSize s) \<and>
      (\<forall>e\<in>set evicted. \<forall>r\<in>set (cache (set_tc now tEvict tSave text v from to s)).
         timestamp (snd e) \<le> timestamp (snd r))"
proof -
  let ?mid = "set_store now text v from to s"
  from checkAndCleanCacheSize_char [of ?mid tEvict] obtain evicted kept where h:
    "sort_key (\<lambda>(key, item). timestamp item) (cache ?mid) = evicted @ kept"
    "cache (checkAndCleanCacheSize tEvict ?mid)
       = filter (\<lambda>e. fst e \<notin> fst ` set evicted) (cache ?mid)"
    "currentCacheSize (checkAndCleanCacheSize tEvict ?mid)
       = currentCacheSize ?mid - entriesSize evicted"
    "\<forall>j<length evicted. currentCacheSize ?mid - entriesSize (take j evicted) > maxCacheSize ?mid"
    "kept = [] \<or> currentCacheSize (checkAndCleanCacheSize tEvict ?mid) \<le> maxCacheSize ?mid"
    by blast
  have e: "cache (checkAndCleanCacheSize tEvict ?mid) = [] \<or>
       currentCacheSize (checkAndCleanCacheSize tEvict ?mid) \<le> maxCacheSize ?mid"
    using h(5) kept_empty [of _ "cache ?mid" evicted] h(1,2) by auto
  have d: "distinctKeys s \<longrightarrow>
       set evicted = set (cache ?mid) - set (cache (checkAndCleanCacheSize tEvict ?mid))"
  proof
    assume "distinctKeys s"
    then have "distinct (map fst (cache ?mid))"
      using set_store_distinct [of s] by (simp add: distinctKeys_def)
    from evicted_removed [OF h(1) this] h(2) show
      "set evicted = set (cache ?mid) - set (cache (checkAndCleanCacheSize tEvict ?mid))"
      by simp
  qed
  show ?thesis
    apply (rule exI [of _ evicted])
    apply (rule exI [of _ kept])
    using h(1-4) e d evicted_older [OF h(1)] by (simp add: set_tc_def)
qed

text \<open>
  The instance of property 5 of the specification: the cap 70 holds two of three entries
  of size 32; \<open>A\<close>, \<open>B\<close> are in the map and \<open>C\<close> is set. \<open>A\<close> is evicted.
\<close>

theorem set_evicts_oldest_first_witness:
  "distinctKeys
     \<lparr>cache = [entry ''A'' ''a'' ''en'' ''fr'' 1, entry ''B'' ''b'' ''en'' ''fr'' 2],
      expirationTime = 259200000, globalState = None, maxCacheSize = 70,
      currentCacheSize = 64,
      metrics = \<lparr>hits = 0, misses = 0, totalResponseTime = 0, responses = 0\<rparr>,
      lastSaveTime = 0\<rparr> \<and>
   set_tc 3 3 3 (js ''C'') (js ''c'') (js ''en'') (js ''fr'')
     \<lparr>cache = [entry ''A'' ''a'' ''en'' ''fr'' 1, entry ''B'' ''b'' ''en'' ''fr'' 2],
      expirationTime = 259200000, globalState = None, maxCacheSize = 70,
      currentCacheSize = 64,
      metrics = \<lparr>hits = 0, misses = 0, totalResponseTime = 0, responses = 0\<rparr>,
      lastSaveTime = 0\<rparr>
   = \<lparr>cache = [entry ''B'' ''b'' ''en'' ''fr'' 2, entry ''C'' ''c'' ''en'' ''fr'' 3],
      expirationTime = 259200000, globalState = None, maxCacheSize = 70,
      currentCacheSize = 64,
      metrics = \<lparr>hits = 0, misses = 0, totalResponseTime = 0, responses = 0\<rparr>,
      lastSaveTime = 0\<rparr> \<and>
   (\<exists>evicted kept.
      [entry ''A'' ''a'' ''en'' ''fr'' 1, entry ''B'' ''b'' ''en'' ''fr'' 2,
       entry ''C'' ''c'' ''en'' ''fr'' 3] = evicted @ kept \<and>
      set evicted = {entry ''A'' ''a'' ''en'' ''fr'' 1} \<and>
      (\<forall>e\<in>set evicted.
         \<forall>r\<in>set [entry ''B'' ''b'' ''en'' ''fr'' 2, entry ''C'' ''c'' ''en'' ''fr'' 3].
           timestamp (snd e) \<le> timestamp (snd r)))"
proof -
  let ?s = "\<lparr>cache = [entry ''A'' ''a'' ''en'' ''fr'' 1, entry ''B'' ''b'' ''en'' ''fr'' 2],
      expirationTime = 259200000, globalState = None, maxCacheSize = 70,
      currentCacheSize = 64,
      metrics = \<lparr>hits = 0, misses = 0, totalResponseTime = 0, responses = 0\<rparr>,
      lastSaveTime = 0\<rparr>"
  have d: "distinctKeys ?s"
    by (simp add: distinctKeys_def cache_defs)
  have m: "cache (set_store 3 (js ''C'') (js ''c'') (js ''en'') (js ''fr'') ?s)
      = [entry ''A'' ''a'' ''en'' ''fr'' 1, entry ''B'' ''b'' ''en'' ''fr'' 2,
         entry ''C'' ''c'' ''en'' ''fr'' 3]"
    by (simp add: cache_defs)
  have o: "sort_key (\<lambda>(key, item). timestamp item)
        [entry ''A'' ''a'' ''en'' ''fr'' 1, entry ''B'' ''b'' ''en'' ''fr'' 2,
         entry ''C'' ''c'' ''en'' ''fr'' 3]
      = [entry ''A'' ''a'' ''en'' ''fr'' 1, entry ''B'' ''b'' ''en'' ''fr'' 2,
         entry ''C'' ''c'' ''en'' ''fr'' 3]"
    by (simp add: entry_def)
  have e: "set_tc 3 3 3 (js ''C'') (js ''c'') (js ''en'') (js ''fr'') ?s
   = \<lparr>cache = [entry ''B'' ''b'' ''en'' ''fr'' 2, entry ''C'' ''c'' ''en'' ''fr'' 3],
      expirationTime = 259200000, globalState = None, maxCacheSize = 70,
      currentCacheSize = 64,
      metrics = \<lparr>hits = 0, misses = 0, totalResponseTime = 0, responses = 0\<rparr>,
      lastSaveTime = 0\<rparr>"
    by (simp add: cache_defs)
  have x: "set [entry ''A'' ''a'' ''en'' ''fr'' 1, entry ''B'' ''b'' ''en'' ''fr'' 2,
         entry ''C'' ''c'' ''en'' ''fr'' 3]
       - set [entry ''B'' ''b'' ''en'' ''fr'' 2, entry ''C'' ''c'' ''en'' ''fr'' 3]
     = {entry ''A'' ''a'' ''en'' ''fr'' 1}"
    by (simp add: cache_defs insert_Diff_if)
  from set_evicts_oldest_first [of 3 "js ''C''" "js ''c''" "js ''en''" "js ''fr''" ?s 3 3] d
  obtain evicted kept where
    a: "sort_key (\<lambda>(key, item). timestamp item)
        (cache (set_store 3 (js ''C'') (js ''c'') (js ''en'') (js ''fr'') ?s)) = evicted @ kept"
    and b: "set evicted = set (cache (set_store 3 (js ''C'') (js ''c'') (js ''en'') (js ''fr'') ?s))
        - set (cache (set_tc 3 3 3 (js ''C'') (js ''c'') (js ''en'') (js ''fr'') ?s))"
    and c: "\<forall>e\<in>set evicted.
       \<forall>r\<in>set (cache (set_tc 3 3 3 (js ''C'') (js ''c'') (js ''en'') (js ''fr'') ?s)).
         timestamp (snd e) \<le> timestamp (snd r)"
    by blast
  from a have a': "[entry ''A'' ''a'' ''en'' ''fr'' 1, entry ''B'' ''b'' ''en'' ''fr'' 2,
       entry ''C'' ''c'' ''en'' ''fr'' 3] = evicted @ kept"
    by (simp only: m o)
  from b have b': "set evicted = {entry ''A'' ''a'' ''en'' ''fr'' 1}"
    by (simp only: m e x TranslationCache.simps)
  from c have c': "\<forall>e\<in>set evicted.
         \<forall>r\<in>set [entry ''B'' ''b'' ''en'' ''fr'' 2, entry ''C'' ''c'' ''en'' ''fr'' 3].
           timestamp (snd e) \<le> timestamp (snd r)"
    by (simp only: e TranslationCache.simps)
  from a' b' c' d e show ?thesis
    by blast
qed

section \<open>What set does (C5)\<close>

text \<open>
  C5: \<open>set(text, value, from, to)\<close> first subtracts the old estimate when the key
  exists, stores a fresh entry whose timestamp is the current time in place of any prior
  one, adds the new estimate \<open>2 * (len key + len value + len from + len to) + 8\<close>, and then
  calls the eviction and \<open>saveCache\<close>, both unconditionally.
\<close>

theorem set_steps:
  "currentCacheSize (set_store now text v from to s) =
     currentCacheSize s
     - (case map_of (cache s) (generateKey text from to) of
          None \<Rightarrow> 0
        | Some old \<Rightarrow> byteSizeEstimate (generateKey text from to) (result old)
                        (from_lang old) (to_lang old))
     + byteSizeEstimate (generateKey text from to) v from to \<and>
   map_of (cache (set_store now text v from to s)) =
     (map_of (cache s))(generateKey text from to \<mapsto>
        \<lparr>result = v, timestamp = now, from_lang = from, to_lang = to\<rparr>) \<and>
   set_tc now tEvict tSave text v from to s =
     saveCache tSave (checkAndCleanCacheSize tEvict (set_store now text v from to s))"
  by (simp add: set_store_cache set_tc_def)
    (simp add: set_store_def Let_def calculateItemSize_estimate split: option.splits)

text \<open>
  Overwriting \<open>hi|en|fr\<close>: the estimate 42 of the old entry goes, the estimate 46 of the
  new one comes, and the write is made.
\<close>

theorem set_steps_witness:
  "currentCacheSize (set_store 6000 (js ''hi'') (js ''bonjour'') (js ''en'') (js ''fr'')
      (set_tc 5000 5000 5000 (js ''hi'') (js ''salut'') (js ''en'') (js ''fr'')
         (constructor 0 0 0 False None None None))) = 42 - 42 + 46 \<and>
   map_of (cache (set_store 6000 (js ''hi'') (js ''bonjour'') (js ''en'') (js ''fr'')
      (set_tc 5000 5000 5000 (js ''hi'') (js ''salut'') (js ''en'') (js ''fr'')
         (constructor 0 0 0 False None None None))))
     (generateKey (js ''hi'') (js ''en'') (js ''fr''))
     = Some \<lparr>result = js ''bonjour'', timestamp = 6000, from_lang = js ''en'',
              to_lang = js ''fr''\<rparr> \<and>
   set_tc 6000 6000 6000 (js ''hi'') (js ''bonjour'') (js ''en'') (js ''fr'')
      (set_tc 5000 5000 5000 (js ''hi'') (js ''salut'') (js ''en'') (js ''fr'')
         (constructor 0 0 0 False None None None))
     = \<lparr>cache = [entry ''hi'' ''bonjour'' ''en'' ''fr'' 6000], expirationTime = 259200000,
        globalState = Some [entry ''hi'' ''bonjour'' ''en'' ''fr'' 6000],
        maxCacheSize = 20971520, currentCacheSize = 46,
        metrics = \<lparr>hits = 0, misses = 0, totalResponseTime = 0, responses = 0\<rparr>,
        lastSaveTime = 6000\<rparr>"
proof -
  have c: "cache (set_tc 5000 5000 5000 (js ''hi'') (js ''salut'') (js ''en'') (js ''fr'')
         (constructor 0 0 0 False None None None)) = [entry ''hi'' ''salut'' ''en'' ''fr'' 5000]"
    and z: "currentCacheSize (set_tc 5000 5000 5000 (js ''hi'') (js ''salut'') (js ''en'') (js ''fr'')
         (constructor 0 0 0 False None None None)) = 42"
    by (simp_all add: cache_defs)
  have e: "set_tc 6000 6000 6000 (js ''hi'') (js ''bonjour'') (js ''en'') (js ''fr'')
      (set_tc 5000 5000 5000 (js ''hi'') (js ''salut'') (js ''en'') (js ''fr'')
         (constructor 0 0 0 False None None None))
     = \<lparr>cache = [entry ''hi'' ''bonjour'' ''en'' ''fr'' 6000], expirationTime = 259200000,
        globalState = Some [entry ''hi'' ''bonjour'' ''en'' ''fr'' 6000],
        maxCacheSize = 20971520, currentCacheSize = 46,
        metrics = \<lparr>hits = 0, misses = 0, totalResponseTime = 0, responses = 0\<rparr>,
        lastSaveTime = 6000\<rparr>"
    by (simp add: cache_defs)
  show ?thesis
    using set_steps [of 6000 "js ''hi''" "js ''bonjour''" "js ''en''" "js ''fr''"
      "set_tc 5000 5000 5000 (js ''hi'') (js ''salut'') (js ''en'') (js ''fr'')
         (constructor 0 0 0 False None None None)" 6000 6000]
    by (simp add: c z e) (simp add: cache_defs)
qed

section \<open>Round trip (C6)\<close>



section \<open>Keys of distinct triples (C7)\<close>

text \<open>
  C7 says that two distinct triples \<open>(text, from, to)\<close> have distinct keys, so that
  \<open>set\<close> under one never changes what \<open>get\<close> returns for the other. It fails in two
  ways. The separator may occur in the arguments: \<open>("a|b", "c", "d")\<close> and
  \<open>("a", "b|c", "d")\<close> share the key \<open>a|b|c|d\<close>, and \<open>get\<close> for the second returns what
  \<open>set\<close> stored for the first. And the eviction that \<open>set\<close> runs may remove the entry
  of another key: with a cap of 0 MB, \<open>set("hi", "v2", "en", "de")\<close> removes the loaded
  entry of \<open>("hi", "en", "fr")\<close>.
\<close>

theorem generateKey_collision:
  "(js ''a|b'', js ''c'', js ''d'') \<noteq> (js ''a'', js ''b|c'', js ''d'') \<and>
   generateKey (js ''a|b'') (js ''c'') (js ''d'') = generateKey (js ''a'') (js ''b|c'') (js ''d'') \<and>
   fst (get 0 0 0 (js ''a'') (js ''b|c'') (js ''d'')
          (constructor 0 0 0 False None None None)) = None \<and>
   fst (get 0 0 0 (js ''a'') (js ''b|c'') (js ''d'')
          (set_tc 0 0 0 (js ''a|b'') (js ''v1'') (js ''c'') (js ''d'')
             (constructor 0 0 0 False None None None))) = Some (js ''v1'') \<and>
   generateKey (js ''hi'') (js ''en'') (js ''fr'') \<noteq> generateKey (js ''hi'') (js ''en'') (js ''de'') \<and>
   fst (get 5 5 5 (js ''hi'') (js ''en'') (js ''fr'')
          (constructor 0 0 0 False (Some [entry ''hi'' ''v1'' ''en'' ''fr'' 0]) None (Some 0)))
     = Some (js ''v1'') \<and>
   fst (get 5 5 5 (js ''hi'') (js ''en'') (js ''fr'')
          (set_tc 5 5 5 (js ''hi'') (js ''v2'') (js ''en'') (js ''de'')
             (constructor 0 0 0 False (Some [entry ''hi'' ''v1'' ''en'' ''fr'' 0]) None (Some 0))))
     = None"
  by (simp add: cache_defs)

text \<open>
  C7 as amended: two distinct triples whose source and target tags do not contain the
  separator have distinct keys, and \<open>set\<close> under one leaves the entry of the other and what
  \<open>get\<close> returns for it as they were whenever the size after storing is within the
  cap, so that no eviction runs. When the eviction runs, the other's entry is as it was or
  gone; \<open>get\<close> returns absent when it is gone and what it returned before when it is
  not; and an entry that has gone was no younger than any entry that stays.
\<close>

theorem distinct_triples_independent:
  assumes "(text1, from1, to1) \<noteq> (text2, from2, to2)"
    and "separator \<notin> set from1 \<union> set to1 \<union> set from2 \<union> set to2"
  shows "generateKey text1 from1 to1 \<noteq> generateKey text2 from2 to2 \<and>
         (currentCacheSize (set_store now text1 v from1 to1 s) \<le> maxCacheSize s \<longrightarrow>
            map_of (cache (set_tc now tEvict tSave text1 v from1 to1 s))
                (generateKey text2 from2 to2)
              = map_of (cache s) (generateKey text2 from2 to2) \<and>
            fst (get startTime tNow t3 text2 from2 to2
                   (set_tc now tEvict tSave text1 v from1 to1 s))
              = fst (get startTime tNow t3 text2 from2 to2 s)) \<and>
         map_of (cache (set_tc now tEvict tSave text1 v from1 to1 s))
             (generateKey text2 from2 to2)
           \<in> {map_of (cache s) (generateKey text2 from2 to2), None} \<and>
         fst (get startTime tNow t3 text2 from2 to2
                (set_tc now tEvict tSave text1 v from1 to1 s))
           = (if map_of (cache (set_tc now tEvict tSave text1 v from1 to1 s))
                   (generateKey text2 from2 to2) = None
              then None else fst (get startTime tNow t3 text2 from2 to2 s)) \<and>
         (distinctKeys s \<and>
          map_of (cache s) (generateKey text2 from2 to2) = Some item2 \<and>
          map_of (cache (set_tc now tEvict tSave text1 v from1 to1 s))
              (generateKey text2 from2 to2) = None \<longrightarrow>
            (\<forall>r\<in>set (cache (set_tc now tEvict tSave text1 v from1 to1 s)).
               timestamp item2 \<le> timestamp (snd r)))"
proof -
  let ?k1 = "generateKey text1 from1 to1" and ?k2 = "generateKey text2 from2 to2"
  let ?mid = "set_store now text1 v from1 to1 s"
  let ?s' = "set_tc now tEvict tSave text1 v from1 to1 s"
  have k: "?k1 \<noteq> ?k2"
    using generateKey_inj [OF _ assms(2)] assms(1) by auto
  have m: "map_of (cache ?mid) ?k2 = map_of (cache s) ?k2"
    using k by (simp add: set_store_cache)
  have c: "cache ?s' = cache (checkAndCleanCacheSize tEvict ?mid)"
    by (simp add: set_tc_def)
  have l: "map_of (cache ?s') ?k2 = None \<or> map_of (cache ?s') ?k2 = map_of (cache s) ?k2"
    using checkAndCleanCacheSize_lookup [of tEvict ?mid ?k2] m c by auto
  have e: "expirationTime ?s' = expirationTime s"
    by (simp add: set_tc_def)
  have g: "fst (get startTime tNow t3 text2 from2 to2 ?s')
           = (if map_of (cache ?s') ?k2 = None then None
              else fst (get startTime tNow t3 text2 from2 to2 s))"
  proof (cases "map_of (cache ?s') ?k2 = None")
    case True
    then show ?thesis by (simp add: get_result)
  next
    case False
    with l have "map_of (cache ?s') ?k2 = map_of (cache s) ?k2" by simp
    with False show ?thesis by (simp add: get_result e split: option.splits)
  qed
  have n: "currentCacheSize ?mid \<le> maxCacheSize s \<longrightarrow>
            map_of (cache ?s') ?k2 = map_of (cache s) ?k2 \<and>
            fst (get startTime tNow t3 text2 from2 to2 ?s')
              = fst (get startTime tNow t3 text2 from2 to2 s)"
  proof
    assume "currentCacheSize ?mid \<le> maxCacheSize s"
    then have "checkAndCleanCacheSize tEvict ?mid = ?mid"
      by (simp add: checkAndCleanCacheSize_def)
    with c m have u: "map_of (cache ?s') ?k2 = map_of (cache s) ?k2"
      by simp
    then have "fst (get startTime tNow t3 text2 from2 to2 ?s')
              = fst (get startTime tNow t3 text2 from2 to2 s)"
      by (simp add: get_result e split: option.splits)
    with u show "map_of (cache ?s') ?k2 = map_of (cache s) ?k2 \<and>
            fst (get startTime tNow t3 text2 from2 to2 ?s')
              = fst (get startTime tNow t3 text2 from2 to2 s)"
      by simp
  qed
  have o: "distinctKeys s \<and> map_of (cache s) ?k2 = Some item2 \<and> map_of (cache ?s') ?k2 = None
        \<longrightarrow> (\<forall>r\<in>set (cache ?s'). timestamp item2 \<le> timestamp (snd r))"
  proof
    assume a: "distinctKeys s \<and> map_of (cache s) ?k2 = Some item2 \<and>
               map_of (cache ?s') ?k2 = None"
    from checkAndCleanCacheSize_char [of ?mid tEvict] obtain evicted kept where h:
      "sort_key (\<lambda>(key, item). timestamp item) (cache ?mid) = evicted @ kept"
      "cache (checkAndCleanCacheSize tEvict ?mid)
         = filter (\<lambda>e. fst e \<notin> fst ` set evicted) (cache ?mid)"
      by blast
    have d: "distinct (map fst (cache ?mid))"
      using a set_store_distinct [of s] by (simp add: distinctKeys_def)
    have i: "(?k2, item2) \<in> set (cache ?mid)"
      using a m by (simp add: map_of_SomeD)
    have r: "set evicted = set (cache ?mid) - set (cache ?s')"
      using evicted_removed [OF h(1) d] c h(2) by simp
    have "?k2 \<notin> fst ` set (cache ?s')"
      using a by (simp add: map_of_eq_None_iff)
    then have "(?k2, item2) \<notin> set (cache ?s')"
      by (auto simp: image_iff)
    with i have "(?k2, item2) \<in> set (cache ?mid) - set (cache ?s')"
      by simp
    then have v: "(?k2, item2) \<in> set evicted"
      unfolding r .
    have "\<forall>e\<in>set evicted. \<forall>r\<in>set (cache ?s'). timestamp (snd e) \<le> timestamp (snd r)"
      using evicted_older [OF h(1)] c h(2) by simp
    with v show "\<forall>r\<in>set (cache ?s'). timestamp item2 \<le> timestamp (snd r)"
      by fastforce
  qed
  from l have l': "map_of (cache ?s') ?k2 \<in> {map_of (cache s) ?k2, None}"
    by auto
  from k n l' g o show ?thesis
    by blast
qed

text \<open>
  Property 2 of the specification, where the cap is far: \<open>hi\<close> from \<open>en\<close> to \<open>fr\<close> and to
  \<open>de\<close> keep their values. And a cap of 70 that holds two of the three entries \<open>A\<close>, \<open>B\<close>,
  \<open>C\<close> of size 32: setting \<open>C\<close> removes \<open>A\<close>, the oldest, and \<open>get\<close> for \<open>A\<close> is
  absent.
\<close>

theorem distinct_triples_independent_witness:
  "(js ''hi'', js ''en'', js ''de'') \<noteq> (js ''hi'', js ''en'', js ''fr'') \<and>
   separator \<notin> set (js ''en'') \<union> set (js ''de'') \<union> set (js ''en'') \<union> set (js ''fr'') \<and>
   generateKey (js ''hi'') (js ''en'') (js ''de'') \<noteq> generateKey (js ''hi'') (js ''en'') (js ''fr'') \<and>
   currentCacheSize (set_store 6000 (js ''hi'') (js ''v2'') (js ''en'') (js ''de'')
       (set_tc 5000 5000 5000 (js ''hi'') (js ''v1'') (js ''en'') (js ''fr'')
          (constructor 0 0 0 False None None None)))
     \<le> maxCacheSize (set_tc 5000 5000 5000 (js ''hi'') (js ''v1'') (js ''en'') (js ''fr'')
          (constructor 0 0 0 False None None None)) \<and>
   fst (get 7000 7000 7000 (js ''hi'') (js ''en'') (js ''fr'')
          (set_tc 6000 6000 6000 (js ''hi'') (js ''v2'') (js ''en'') (js ''de'')
             (set_tc 5000 5000 5000 (js ''hi'') (js ''v1'') (js ''en'') (js ''fr'')
                (constructor 0 0 0 False None None None))))
     = fst (get 7000 7000 7000 (js ''hi'') (js ''en'') (js ''fr'')
          (set_tc 5000 5000 5000 (js ''hi'') (js ''v1'') (js ''en'') (js ''fr'')
             (constructor 0 0 0 False None None None))) \<and>
   fst (get 7000 7000 7000 (js ''hi'') (js ''en'') (js ''fr'')
          (set_tc 6000 6000 6000 (js ''hi'') (js ''v2'') (js ''en'') (js ''de'')
             (set_tc 5000 5000 5000 (js ''hi'') (js ''v1'') (js ''en'') (js ''fr'')
                (constructor 0 0 0 False None None None)))) = Some (js ''v1'') \<and>
   fst (get 7000 7000 7000 (js ''hi'') (js ''en'') (js ''de'')
          (set_tc 6000 6000 6000 (js ''hi'') (js ''v2'') (js ''en'') (js ''de'')
             (set_tc 5000 5000 5000 (js ''hi'') (js ''v1'') (js ''en'') (js ''fr'')
                (constructor 0 0 0 False None None None)))) = Some (js ''v2'') \<and>
   (js ''C'', js ''en'', js ''fr'') \<noteq> (js ''A'', js ''en'', js ''fr'') \<and>
   distinctKeys
     \<lparr>cache = [entry ''A'' ''a'' ''en'' ''fr'' 1, entry ''B'' ''b'' ''en'' ''fr'' 2],
      expirationTime = 259200000, globalState = None, maxCacheSize = 70,
      currentCacheSize = 64,
      metrics = \<lparr>hits = 0, misses = 0, totalResponseTime = 0, responses = 0\<rparr>,
      lastSaveTime = 0\<rparr> \<and>
   map_of [entry ''A'' ''a'' ''en'' ''fr'' 1, entry ''B'' ''b'' ''en'' ''fr'' 2]
       (generateKey (js ''A'') (js ''en'') (js ''fr''))
     = Some \<lparr>result = js ''a'', timestamp = 1, from_lang = js ''en'', to_lang = js ''fr''\<rparr> \<and>
   cache (set_tc 3 3 3 (js ''C'') (js ''c'') (js ''en'') (js ''fr'')
     \<lparr>cache = [entry ''A'' ''a'' ''en'' ''fr'' 1, entry ''B'' ''b'' ''en'' ''fr'' 2],
      expirationTime = 259200000, globalState = None, maxCacheSize = 70,
      currentCacheSize = 64,
      metrics = \<lparr>hits = 0, misses = 0, totalResponseTime = 0, responses = 0\<rparr>,
      lastSaveTime = 0\<rparr>)
     = [entry ''B'' ''b'' ''en'' ''fr'' 2, entry ''C'' ''c'' ''en'' ''fr'' 3] \<and>
   fst (get 4 4 4 (js ''A'') (js ''en'') (js ''fr'')
     (set_tc 3 3 3 (js ''C'') (js ''c'') (js ''en'') (js ''fr'')
       \<lparr>cache = [entry ''A'' ''a'' ''en'' ''fr'' 1, entry ''B'' ''b'' ''en'' ''fr'' 2],
        expirationTime = 259200000, globalState = None, maxCacheSize = 70,
        currentCacheSize = 64,
        metrics = \<lparr>hits = 0, misses = 0, totalResponseTime = 0, responses = 0\<rparr>,
        lastSaveTime = 0\<rparr>)) = None \<and>
   (1::int) \<le> timestamp (snd (entry ''B'' ''b'' ''en'' ''fr'' 2)) \<and>
   (1::int) \<le> timestamp (snd (entry ''C'' ''c'' ''en'' ''fr'' 3))"
proof -
  let ?s1 = "set_tc 5000 5000 5000 (js ''hi'') (js ''v1'') (js ''en'') (js ''fr'')
                (constructor 0 0 0 False None None None)"
  let ?s2 = "\<lparr>cache = [entry ''A'' ''a'' ''en'' ''fr'' 1, entry ''B'' ''b'' ''en'' ''fr'' 2],
      expirationTime = 259200000, globalState = None, maxCacheSize = 70,
      currentCacheSize = 64,
      metrics = \<lparr>hits = 0, misses = 0, totalResponseTime = 0, responses = 0\<rparr>,
      lastSaveTime = 0\<rparr>"
  let ?a = "\<lparr>result = js ''a'', timestamp = 1, from_lang = js ''en'', to_lang = js ''fr''\<rparr>"
  have h1: "(js ''hi'', js ''en'', js ''de'') \<noteq> (js ''hi'', js ''en'', js ''fr'')"
    by (simp add: js_def)
  have h2: "separator \<notin> set (js ''en'') \<union> set (js ''de'') \<union> set (js ''en'') \<union> set (js ''fr'')"
    by (simp add: js_def separator_def)
  have h3: "currentCacheSize (set_store 6000 (js ''hi'') (js ''v2'') (js ''en'') (js ''de'') ?s1)
      \<le> maxCacheSize ?s1"
    by (simp add: cache_defs)
  have e: "fst (get 7000 7000 7000 (js ''hi'') (js ''en'') (js ''fr'')
          (set_tc 6000 6000 6000 (js ''hi'') (js ''v2'') (js ''en'') (js ''de'') ?s1))
        = Some (js ''v1'')"
    "fst (get 7000 7000 7000 (js ''hi'') (js ''en'') (js ''de'')
          (set_tc 6000 6000 6000 (js ''hi'') (js ''v2'') (js ''en'') (js ''de'') ?s1))
        = Some (js ''v2'')"
    by (simp_all add: cache_defs)
  from distinct_triples_independent [OF h1 h2, of 6000 "js ''v2''" ?s1 6000 6000 7000 7000 7000] h3
  have w1: "generateKey (js ''hi'') (js ''en'') (js ''de'')
        \<noteq> generateKey (js ''hi'') (js ''en'') (js ''fr'')"
    and w2: "fst (get 7000 7000 7000 (js ''hi'') (js ''en'') (js ''fr'')
          (set_tc 6000 6000 6000 (js ''hi'') (js ''v2'') (js ''en'') (js ''de'') ?s1))
       = fst (get 7000 7000 7000 (js ''hi'') (js ''en'') (js ''fr'') ?s1)"
    by blast+
  have g1: "(js ''C'', js ''en'', js ''fr'') \<noteq> (js ''A'', js ''en'', js ''fr'')"
    by (simp add: js_def)
  have g2: "separator \<notin> set (js ''en'') \<union> set (js ''fr'') \<union> set (js ''en'') \<union> set (js ''fr'')"
    by (simp add: js_def separator_def)
  have g3: "distinctKeys ?s2"
    by (simp add: distinctKeys_def cache_defs)
  have g4: "map_of (cache ?s2) (generateKey (js ''A'') (js ''en'') (js ''fr'')) = Some ?a"
    by (simp add: cache_defs)
  have g5: "cache (set_tc 3 3 3 (js ''C'') (js ''c'') (js ''en'') (js ''fr'') ?s2)
      = [entry ''B'' ''b'' ''en'' ''fr'' 2, entry ''C'' ''c'' ''en'' ''fr'' 3]"
    by (simp add: cache_defs)
  have g6: "map_of (cache (set_tc 3 3 3 (js ''C'') (js ''c'') (js ''en'') (js ''fr'') ?s2))
      (generateKey (js ''A'') (js ''en'') (js ''fr'')) = None"
    by (simp only: g5) (simp add: cache_defs)
  from distinct_triples_independent [OF g1 g2, of 3 "js ''c''" ?s2 3 3 4 4 4 ?a] g3 g4 g6
  have w3: "fst (get 4 4 4 (js ''A'') (js ''en'') (js ''fr'')
       (set_tc 3 3 3 (js ''C'') (js ''c'') (js ''en'') (js ''fr'') ?s2)) = None"
    and w4: "\<forall>r\<in>set (cache (set_tc 3 3 3 (js ''C'') (js ''c'') (js ''en'') (js ''fr'') ?s2)).
       timestamp ?a \<le> timestamp (snd r)"
    by simp_all
  from w4 have "\<forall>r\<in>set [entry ''B'' ''b'' ''en'' ''fr'' 2, entry ''C'' ''c'' ''en'' ''fr'' 3].
      (1::int) \<le> timestamp (snd r)"
    by (simp only: g5 CacheItem.simps)
  then have w4': "(1::int) \<le> timestamp (snd (entry ''B'' ''b'' ''en'' ''fr'' 2)) \<and>
      (1::int) \<le> timestamp (snd (entry ''C'' ''c'' ''en'' ''fr'' 3))"
    by simp
  from g4 have g4': "map_of [entry ''A'' ''a'' ''en'' ''fr'' 1, entry ''B'' ''b'' ''en'' ''fr'' 2]
       (generateKey (js ''A'') (js ''en'') (js ''fr'')) = Some ?a"
    by (simp only: TranslationCache.simps)
  from h1 h2 h3 e w1 w2 g1 g3 g4' g5 w3 w4' show ?thesis
    by blast
qed

section \<open>Metrics (C8)\<close>

text \<open>
  C8 says that \<open>getMetrics\<close> returns \<open>hitRate = hits / (hits + misses) * 100\<close> and
  \<open>avgResponseTime = totalResponseTime / responses\<close>, and that after 3 hits and 1 miss the
  average is the mean of the three latencies. The source computes both in doubles, so
  what it returns is the rounded value. After one hit and two misses the hit rate is
  \<open>2345624805922133 / 2^46\<close> (printed \<open>33.33333333333333\<close>) and not \<open>100 / 3\<close>; after
  three hits of 1, 0 and 0 ms and one miss the average is \<open>6004799503160661 / 2^54\<close>
  (printed \<open>0.3333333333333333\<close>) and not \<open>1 / 3\<close>.
\<close>

theorem metrics_not_exact:
  "hitRate (getMetrics (run
     [Set 5000 5000 5000 (js ''hi'') (js ''salut'') (js ''en'') (js ''fr''),
      Get 6000 6000 6001 (js ''hi'') (js ''en'') (js ''fr''),
      Get 7000 7000 7000 (js ''yo'') (js ''en'') (js ''fr''),
      Get 8000 8000 8000 (js ''yo'') (js ''en'') (js ''fr'')]
     (constructor 0 0 0 False None None None))) = 2345624805922133 / 2 ^ 46 \<and>
   hitRate (getMetrics (run
     [Set 5000 5000 5000 (js ''hi'') (js ''salut'') (js ''en'') (js ''fr''),
      Get 6000 6000 6001 (js ''hi'') (js ''en'') (js ''fr''),
      Get 7000 7000 7000 (js ''yo'') (js ''en'') (js ''fr''),
      Get 8000 8000 8000 (js ''yo'') (js ''en'') (js ''fr'')]
     (constructor 0 0 0 False None None None))) \<noteq> 1 / (1 + 2) * 100 \<and>
   hitLatencies
     [Set 5000 5000 5000 (js ''hi'') (js ''salut'') (js ''en'') (js ''fr''),
      Get 6000 6000 6001 (js ''hi'') (js ''en'') (js ''fr''),
      Get 7000 7000 7000 (js ''hi'') (js ''en'') (js ''fr''),
      Get 8000 8000 8000 (js ''yo'') (js ''en'') (js ''fr''),
      Get 9000 9000 9000 (js ''hi'') (js ''en'') (js ''fr'')]
     (constructor 0 0 0 False None None None) = [1, 0, 0] \<and>
   missCount
     [Set 5000 5000 5000 (js ''hi'') (js ''salut'') (js ''en'') (js ''fr''),
      Get 6000 6000 6001 (js ''hi'') (js ''en'') (js ''fr''),
      Get 7000 7000 7000 (js ''hi'') (js ''en'') (js ''fr''),
      Get 8000 8000 8000 (js ''yo'') (js ''en'') (js ''fr''),
      Get 9000 9000 9000 (js ''hi'') (js ''en'') (js ''fr'')]
     (constructor 0 0 0 False None None None) = 1 \<and>
   avgResponseTime (getMetrics (run
     [Set 5000 5000 5000 (js ''hi'') (js ''salut'') (js ''en'') (js ''fr''),
      Get 6000 6000 6001 (js ''hi'') (js ''en'') (js ''fr''),
      Get 7000 7000 7000 (js ''hi'') (js ''en'') (js ''fr''),
      Get 8000 8000 8000 (js ''yo'') (js ''en'') (js ''fr''),
      Get 9000 9000 9000 (js ''hi'') (js ''en'') (js ''fr'')]
     (constructor 0 0 0 False None None None))) = 6004799503160661 / 2 ^ 54 \<and>
   avgResponseTime (getMetrics (run
     [Set 5000 5000 5000 (js ''hi'') (js ''salut'') (js ''en'') (js ''fr''),
      Get 6000 6000 6001 (js ''hi'') (js ''en'') (js ''fr''),
      Get 7000 7000 7000 (js ''hi'') (js ''en'') (js ''fr''),
      Get 8000 8000 8000 (js ''yo'') (js ''en'') (js ''fr''),
      Get 9000 9000 9000 (js ''hi'') (js ''en'') (js ''fr'')]
     (constructor 0 0 0 False None None None))) \<noteq> (1 + 0 + 0) / 3"
proof -
  have m1: "metrics (run
     [Set 5000 5000 5000 (js ''hi'') (js ''salut'') (js ''en'') (js ''fr''),
      Get 6000 6000 6001 (js ''hi'') (js ''en'') (js ''fr''),
      Get 7000 7000 7000 (js ''yo'') (js ''en'') (js ''fr''),
      Get 8000 8000 8000 (js ''yo'') (js ''en'') (js ''fr'')]
     (constructor 0 0 0 False None None None))
     = \<lparr>hits = 1, misses = 2, totalResponseTime = 1, responses = 1\<rparr>"
    by (simp add: cache_defs)
  have m2: "metrics (run
     [Set 5000 5000 5000 (js ''hi'') (js ''salut'') (js ''en'') (js ''fr''),
      Get 6000 6000 6001 (js ''hi'') (js ''en'') (js ''fr''),
      Get 7000 7000 7000 (js ''hi'') (js ''en'') (js ''fr''),
      Get 8000 8000 8000 (js ''yo'') (js ''en'') (js ''fr''),
      Get 9000 9000 9000 (js ''hi'') (js ''en'') (js ''fr'')]
     (constructor 0 0 0 False None None None))
     = \<lparr>hits = 3, misses = 1, totalResponseTime = 1, responses = 3\<rparr>"
    by (simp add: cache_defs)
  have h: "hitLatencies
     [Set 5000 5000 5000 (js ''hi'') (js ''salut'') (js ''en'') (js ''fr''),
      Get 6000 6000 6001 (js ''hi'') (js ''en'') (js ''fr''),
      Get 7000 7000 7000 (js ''hi'') (js ''en'') (js ''fr''),
      Get 8000 8000 8000 (js ''yo'') (js ''en'') (js ''fr''),
      Get 9000 9000 9000 (js ''hi'') (js ''en'') (js ''fr'')]
     (constructor 0 0 0 False None None None) = [1, 0, 0] \<and>
   missCount
     [Set 5000 5000 5000 (js ''hi'') (js ''salut'') (js ''en'') (js ''fr''),
      Get 6000 6000 6001 (js ''hi'') (js ''en'') (js ''fr''),
      Get 7000 7000 7000 (js ''hi'') (js ''en'') (js ''fr''),
      Get 8000 8000 8000 (js ''yo'') (js ''en'') (js ''fr''),
      Get 9000 9000 9000 (js ''hi'') (js ''en'') (js ''fr'')]
     (constructor 0 0 0 False None None None) = 1"
    by (simp add: cache_defs)
  have r1: "hitRate (getMetrics (run
     [Set 5000 5000 5000 (js ''hi'') (js ''salut'') (js ''en'') (js ''fr''),
      Get 6000 6000 6001 (js ''hi'') (js ''en'') (js ''fr''),
      Get 7000 7000 7000 (js ''yo'') (js ''en'') (js ''fr''),
      Get 8000 8000 8000 (js ''yo'') (js ''en'') (js ''fr'')]
     (constructor 0 0 0 False None None None))) = 2345624805922133 / 2 ^ 46"
    by (simp only: getMetrics_def m1 Let_def Metrics.simps MetricsSnapshot.simps)
      (simp add: double_examples(2))
  have r2: "avgResponseTime (getMetrics (run
     [Set 5000 5000 5000 (js ''hi'') (js ''salut'') (js ''en'') (js ''fr''),
      Get 6000 6000 6001 (js ''hi'') (js ''en'') (js ''fr''),
      Get 7000 7000 7000 (js ''hi'') (js ''en'') (js ''fr''),
      Get 8000 8000 8000 (js ''yo'') (js ''en'') (js ''fr''),
      Get 9000 9000 9000 (js ''hi'') (js ''en'') (js ''fr'')]
     (constructor 0 0 0 False None None None))) = 6004799503160661 / 2 ^ 54"
    by (simp only: getMetrics_def m2 Let_def Metrics.simps MetricsSnapshot.simps)
      (simp add: double_examples(3))
  have n1: "hitRate (getMetrics (run
     [Set 5000 5000 5000 (js ''hi'') (js ''salut'') (js ''en'') (js ''fr''),
      Get 6000 6000 6001 (js ''hi'') (js ''en'') (js ''fr''),
      Get 7000 7000 7000 (js ''yo'') (js ''en'') (js ''fr''),
      Get 8000 8000 8000 (js ''yo'') (js ''en'') (js ''fr'')]
     (constructor 0 0 0 False None None None))) \<noteq> 1 / (1 + 2) * 100"
    unfolding r1 by simp
  have n2: "avgResponseTime (getMetrics (run
     [Set 5000 5000 5000 (js ''hi'') (js ''salut'') (js ''en'') (js ''fr''),
      Get 6000 6000 6001 (js ''hi'') (js ''en'') (js ''fr''),
      Get 7000 7000 7000 (js ''hi'') (js ''en'') (js ''fr''),
      Get 8000 8000 8000 (js ''yo'') (js ''en'') (js ''fr''),
      Get 9000 9000 9000 (js ''hi'') (js ''en'') (js ''fr'')]
     (constructor 0 0 0 False None None None))) \<noteq> (1 + 0 + 0) / 3"
    unfolding r2 by simp
  from r1 n1 h r2 n2 show ?thesis
    by blast
qed

text \<open>
  C8 as amended: \<open>getMetrics\<close> returns \<open>hitRate = hits / (hits + misses) * 100\<close> (0 without
  observations) and \<open>avgResponseTime = totalResponseTime / responses\<close> (0 without hits) as
  double arithmetic computes them, each quotient and the product rounded to the nearest
  double, which is within a relative error of \<open>2^-53\<close> of the exact result; a miss adds one
  to \<open>misses\<close> and changes nothing else; and from a fresh instance, any run of \<open>get\<close>,
  \<open>set\<close> and \<open>clear\<close> calls in which three calls of \<open>get\<close> hit, with latencies \<open>l1\<close>,
  \<open>l2\<close>, \<open>l3\<close>, and one misses gives a hit rate of exactly 75 and an average response time
  that is the mean \<open>(l1 + l2 + l3) / 3\<close> rounded to a double.
\<close>

theorem metrics_snapshot:
  "hitRate (getMetrics s) =
     (if hits (metrics s) + misses (metrics s) > 0
      then double_mul
             (double_div (real_of_int (hits (metrics s)))
                (real_of_int (hits (metrics s) + misses (metrics s)))) 100
      else 0) \<and>
   avgResponseTime (getMetrics s) =
     (if responses (metrics s) > 0
      then double_div (real_of_int (totalResponseTime (metrics s)))
             (real_of_int (responses (metrics s)))
      else 0) \<and>
   \<bar>double_div a b - a / b\<bar> \<le> \<bar>a / b\<bar> / 2 ^ 53 \<and>
   \<bar>double_mul a b - a * b\<bar> \<le> \<bar>a * b\<bar> / 2 ^ 53 \<and>
   (map_of (cache s) (generateKey text from to) = None \<longrightarrow>
      get startTime now t3 text from to s =
        (None, s\<lparr>metrics := (metrics s)\<lparr>misses := misses (metrics s) + 1\<rparr>\<rparr>)) \<and>
   (hitLatencies ops (constructor tInit tSweep tSave g ctx days mb) = [l1, l2, l3] \<and>
    missCount ops (constructor tInit tSweep tSave g ctx days mb) = 1 \<longrightarrow>
      hitRate (getMetrics (run ops (constructor tInit tSweep tSave g ctx days mb))) = 75 \<and>
      avgResponseTime (getMetrics (run ops (constructor tInit tSweep tSave g ctx days mb)))
        = double_div (real_of_int (l1 + l2 + l3)) 3 \<and>
      \<bar>avgResponseTime (getMetrics (run ops (constructor tInit tSweep tSave g ctx days mb)))
         - real_of_int (l1 + l2 + l3) / 3\<bar>
        \<le> \<bar>real_of_int (l1 + l2 + l3) / 3\<bar> / 2 ^ 53)"
proof (intro conjI impI)
  show "hitRate (getMetrics s) =
     (if hits (metrics s) + misses (metrics s) > 0
      then double_mul
             (double_div (real_of_int (hits (metrics s)))
                (real_of_int (hits (metrics s) + misses (metrics s)))) 100
      else 0)"
    by (simp add: getMetrics_def Let_def)
  show "avgResponseTime (getMetrics s) =
     (if responses (metrics s) > 0
      then double_div (real_of_int (totalResponseTime (metrics s)))
             (real_of_int (responses (metrics s)))
      else 0)"
    by (simp add: getMetrics_def Let_def)
  show "\<bar>double_div a b - a / b\<bar> \<le> \<bar>a / b\<bar> / 2 ^ 53"
    by (rule double_div_error)
  show "\<bar>double_mul a b - a * b\<bar> \<le> \<bar>a * b\<bar> / 2 ^ 53"
    by (rule double_mul_error)
next
  assume "map_of (cache s) (generateKey text from to) = None"
  then show "get startTime now t3 text from to s =
        (None, s\<lparr>metrics := (metrics s)\<lparr>misses := misses (metrics s) + 1\<rparr>\<rparr>)"
    by (simp add: get_def)
next
  let ?s0 = "constructor tInit tSweep tSave g ctx days mb"
  assume a: "hitLatencies ops ?s0 = [l1, l2, l3] \<and> missCount ops ?s0 = 1"
  have m: "metrics (run ops ?s0) =
     \<lparr>hits = 3, misses = 1, totalResponseTime = l1 + l2 + l3, responses = 3\<rparr>"
    using a by (simp add: run_metrics constructor_metrics)
  show "hitRate (getMetrics (run ops ?s0)) = 75"
    by (simp add: getMetrics_def m double_examples)
  show v: "avgResponseTime (getMetrics (run ops ?s0)) = double_div (real_of_int (l1 + l2 + l3)) 3"
    by (simp add: getMetrics_def m)
  show "\<bar>avgResponseTime (getMetrics (run ops ?s0)) - real_of_int (l1 + l2 + l3) / 3\<bar>
        \<le> \<bar>real_of_int (l1 + l2 + l3) / 3\<bar> / 2 ^ 53"
    unfolding v by (rule double_div_error)
qed

text \<open>
  Three hits of 2, 4 and 6 ms and one miss: 75 and 4.
\<close>

theorem metrics_snapshot_witness:
  "hitLatencies
     [Set 5000 5000 5000 (js ''hi'') (js ''salut'') (js ''en'') (js ''fr''),
      Get 6000 6000 6002 (js ''hi'') (js ''en'') (js ''fr''),
      Get 7000 7000 7004 (js ''hi'') (js ''en'') (js ''fr''),
      Get 8000 8000 8000 (js ''yo'') (js ''en'') (js ''fr''),
      Get 9000 9000 9006 (js ''hi'') (js ''en'') (js ''fr'')]
     (constructor 0 0 0 False None None None) = [2, 4, 6] \<and>
   missCount
     [Set 5000 5000 5000 (js ''hi'') (js ''salut'') (js ''en'') (js ''fr''),
      Get 6000 6000 6002 (js ''hi'') (js ''en'') (js ''fr''),
      Get 7000 7000 7004 (js ''hi'') (js ''en'') (js ''fr''),
      Get 8000 8000 8000 (js ''yo'') (js ''en'') (js ''fr''),
      Get 9000 9000 9006 (js ''hi'') (js ''en'') (js ''fr'')]
     (constructor 0 0 0 False None None None) = 1 \<and>
   map_of (cache (constructor 0 0 0 False None None None))
     (generateKey (js ''yo'') (js ''en'') (js ''fr'')) = None \<and>
   get 8000 8000 8000 (js ''yo'') (js ''en'') (js ''fr'')
     (constructor 0 0 0 False None None None)
     = (None, (constructor 0 0 0 False None None None)
          \<lparr>metrics := \<lparr>hits = 0, misses = 1, totalResponseTime = 0, responses = 0\<rparr>\<rparr>) \<and>
   hitRate (getMetrics (run
     [Set 5000 5000 5000 (js ''hi'') (js ''salut'') (js ''en'') (js ''fr''),
      Get 6000 6000 6002 (js ''hi'') (js ''en'') (js ''fr''),
      Get 7000 7000 7004 (js ''hi'') (js ''en'') (js ''fr''),
      Get 8000 8000 8000 (js ''yo'') (js ''en'') (js ''fr''),
      Get 9000 9000 9006 (js ''hi'') (js ''en'') (js ''fr'')]
     (constructor 0 0 0 False None None None))) = 75 \<and>
   avgResponseTime (getMetrics (run
     [Set 5000 5000 5000 (js ''hi'') (js ''salut'') (js ''en'') (js ''fr''),
      Get 6000 6000 6002 (js ''hi'') (js ''en'') (js ''fr''),
      Get 7000 7000 7004 (js ''hi'') (js ''en'') (js ''fr''),
      Get 8000 8000 8000 (js ''yo'') (js ''en'') (js ''fr''),
      Get 9000 9000 9006 (js ''hi'') (js ''en'') (js ''fr'')]
     (constructor 0 0 0 False None None None))) = 4"
proof -
  let ?ops = "[Set 5000 5000 5000 (js ''hi'') (js ''salut'') (js ''en'') (js ''fr''),
      Get 6000 6000 6002 (js ''hi'') (js ''en'') (js ''fr''),
      Get 7000 7000 7004 (js ''hi'') (js ''en'') (js ''fr''),
      Get 8000 8000 8000 (js ''yo'') (js ''en'') (js ''fr''),
      Get 9000 9000 9006 (js ''hi'') (js ''en'') (js ''fr'')]"
  let ?s0 = "constructor 0 0 0 False None None None"
  have h: "hitLatencies ?ops ?s0 = [2, 4, 6] \<and> missCount ?ops ?s0 = 1"
    by (simp add: cache_defs)
  have n: "map_of (cache ?s0) (generateKey (js ''yo'') (js ''en'') (js ''fr'')) = None"
    by (simp add: cache_defs)
  have z: "metrics ?s0 = \<lparr>hits = 0, misses = 0, totalResponseTime = 0, responses = 0\<rparr>"
    by (rule constructor_metrics)
  have d: "double_div (real_of_int (2 + 4 + 6)) 3 = 4"
    by (simp add: double_defs Let_def)
  from metrics_snapshot [where s = ?s0 and ?text = "js ''yo''" and ?from = "js ''en''"
      and ?to = "js ''fr''" and startTime = 8000 and now = 8000 and ?t3.0 = 8000
      and ops = ?ops and tInit = 0 and tSweep = 0 and tSave = 0 and g = False and ctx = None
      and days = None and mb = None and ?l1.0 = 2 and ?l2.0 = 4 and ?l3.0 = 6] h n
  have "get 8000 8000 8000 (js ''yo'') (js ''en'') (js ''fr'') ?s0
        = (None, ?s0\<lparr>metrics := (metrics ?s0)\<lparr>misses := misses (metrics ?s0) + 1\<rparr>\<rparr>)"
    and "hitRate (getMetrics (run ?ops ?s0)) = 75"
    and "avgResponseTime (getMetrics (run ?ops ?s0)) = double_div (real_of_int (2 + 4 + 6)) 3"
    by blast+
  with h n show ?thesis
    by (simp only: d z Metrics.simps) simp
qed

section \<open>Clearing (C9, C10)\<close>

text \<open>
  C9: after \<open>clear()\<close> the map is empty and \<open>currentCacheSize\<close> is 0, so \<open>size()\<close> is 0,
  the size \<open>getMetrics\<close> reports is 0 and \<open>get\<close> returns absent for every key; and the
  write is asked for: \<open>saveCache\<close> makes it unless less than 1000 ms have passed since
  \<open>lastSaveTime\<close>, and it stores the empty map.
\<close>

theorem clear_empties:
  "cache (clear t s) = [] \<and> currentCacheSize (clear t s) = 0 \<and> size_tc (clear t s) = 0 \<and>
   size_m (getMetrics (clear t s)) = 0 \<and>
   fst (get tStart tNow t3 text from to (clear t s)) = None \<and>
   globalState (clear t s) = (if t - lastSaveTime s < 1000 then globalState s else Some []) \<and>
   lastSaveTime (clear t s) = (if t - lastSaveTime s < 1000 then lastSaveTime s else t)"
  by (simp add: clear_def size_tc_def getMetrics_def get_def Let_def saveCache_def)

text \<open>
  Clearing a cache that holds an entry, four seconds after the last write.
\<close>

theorem clear_empties_witness:
  "fst (get 9000 9000 9000 (js ''hi'') (js ''en'') (js ''fr'')
          (set_tc 5000 5000 5000 (js ''hi'') (js ''salut'') (js ''en'') (js ''fr'')
             (constructor 0 0 0 False None None None))) = Some (js ''salut'') \<and>
   fst (get 9000 9000 9000 (js ''hi'') (js ''en'') (js ''fr'')
          (clear 9000
             (set_tc 5000 5000 5000 (js ''hi'') (js ''salut'') (js ''en'') (js ''fr'')
                (constructor 0 0 0 False None None None)))) = None \<and>
   size_tc (clear 9000
             (set_tc 5000 5000 5000 (js ''hi'') (js ''salut'') (js ''en'') (js ''fr'')
                (constructor 0 0 0 False None None None))) = 0 \<and>
   size_m (getMetrics (clear 9000
             (set_tc 5000 5000 5000 (js ''hi'') (js ''salut'') (js ''en'') (js ''fr'')
                (constructor 0 0 0 False None None None)))) = 0 \<and>
   globalState (clear 9000
             (set_tc 5000 5000 5000 (js ''hi'') (js ''salut'') (js ''en'') (js ''fr'')
                (constructor 0 0 0 False None None None))) = Some []"
proof -
  have "fst (get 9000 9000 9000 (js ''hi'') (js ''en'') (js ''fr'')
          (set_tc 5000 5000 5000 (js ''hi'') (js ''salut'') (js ''en'') (js ''fr'')
             (constructor 0 0 0 False None None None))) = Some (js ''salut'')"
    by (simp add: cache_defs)
  moreover have "lastSaveTime (set_tc 5000 5000 5000 (js ''hi'') (js ''salut'') (js ''en'') (js ''fr'')
             (constructor 0 0 0 False None None None)) = 5000"
    by (simp add: cache_defs)
  ultimately show ?thesis
    using clear_empties [of 9000
        "set_tc 5000 5000 5000 (js ''hi'') (js ''salut'') (js ''en'') (js ''fr'')
           (constructor 0 0 0 False None None None)"
        9000 9000 9000 "js ''hi''" "js ''en''" "js ''fr''"]
    by simp
qed

text \<open>
  C10: \<open>clear()\<close> leaves the counters \<open>hits\<close>, \<open>misses\<close>, \<open>totalResponseTime\<close> and
  \<open>responses\<close> as they are, so the hit rate and the average response time that
  \<open>getMetrics\<close> reports do not change.
\<close>

theorem clear_keeps_metrics:
  "metrics (clear t s) = metrics s \<and>
   hitRate (getMetrics (clear t s)) = hitRate (getMetrics s) \<and>
   avgResponseTime (getMetrics (clear t s)) = avgResponseTime (getMetrics s)"
  by (simp add: clear_def getMetrics_def Let_def)

text \<open>
  After one hit of 4 ms and one miss.
\<close>

theorem clear_keeps_metrics_witness:
  "metrics (clear 9000
      (run [Set 5000 5000 5000 (js ''hi'') (js ''salut'') (js ''en'') (js ''fr''),
            Get 6000 6000 6004 (js ''hi'') (js ''en'') (js ''fr''),
            Get 7000 7000 7000 (js ''yo'') (js ''en'') (js ''fr'')]
         (constructor 0 0 0 False None None None)))
     = \<lparr>hits = 1, misses = 1, totalResponseTime = 4, responses = 1\<rparr> \<and>
   hitRate (getMetrics (clear 9000
      (run [Set 5000 5000 5000 (js ''hi'') (js ''salut'') (js ''en'') (js ''fr''),
            Get 6000 6000 6004 (js ''hi'') (js ''en'') (js ''fr''),
            Get 7000 7000 7000 (js ''yo'') (js ''en'') (js ''fr'')]
         (constructor 0 0 0 False None None None)))) = 50 \<and>
   avgResponseTime (getMetrics (clear 9000
      (run [Set 5000 5000 5000 (js ''hi'') (js ''salut'') (js ''en'') (js ''fr''),
            Get 6000 6000 6004 (js ''hi'') (js ''en'') (js ''fr''),
            Get 7000 7000 7000 (js ''yo'') (js ''en'') (js ''fr'')]
         (constructor 0 0 0 False None None None)))) = 4"
proof -
  have m: "metrics
      (run [Set 5000 5000 5000 (js ''hi'') (js ''salut'') (js ''en'') (js ''fr''),
            Get 6000 6000 6004 (js ''hi'') (js ''en'') (js ''fr''),
            Get 7000 7000 7000 (js ''yo'') (js ''en'') (js ''fr'')]
         (constructor 0 0 0 False None None None))
     = \<lparr>hits = 1, misses = 1, totalResponseTime = 4, responses = 1\<rparr>"
    by (simp add: cache_defs)
  show ?thesis
    using clear_keeps_metrics [of 9000
      "run [Set 5000 5000 5000 (js ''hi'') (js ''salut'') (js ''en'') (js ''fr''),
            Get 6000 6000 6004 (js ''hi'') (js ''en'') (js ''fr''),
            Get 7000 7000 7000 (js ''yo'') (js ''en'') (js ''fr'')]
         (constructor 0 0 0 False None None None)"]
    by (simp add: m getMetrics_def double_defs Let_def)
qed

end
